theory Spec2Isabelle
  imports Main
begin

section \<open>The local, file-based evaluation store\<close>

text \<open>
  A shallow embedding of \<^verbatim>\<open>genkit-tools/common/src/eval/localFileEvalStore.ts\<close>:
  the class \<^verbatim>\<open>LocalFileEvalStore\<close>, which keeps one JSON file per evaluation run
  and an index file with one serialised run key per line.

  The class talks to four pieces of its environment, and each is modelled explicitly:
  \<^item> JavaScript strings (\<^verbatim>\<open>slice\<close>, \<^verbatim>\<open>split\<close>, \<^verbatim>\<open>join\<close>) are lists of characters;
  \<^item> the file system below the store's root is a map from paths to file contents,
    threaded through every operation, so that what an operation has already written
    when it throws is still there afterwards;
  \<^item> a thrown exception or a rejected promise is the \<open>Inl\<close> branch of a sum;
  \<^item> \<^verbatim>\<open>JSON.stringify\<close>, \<^verbatim>\<open>JSON.parse\<close> and the two schemas of
    \<^verbatim>\<open>../types/eval\<close> are not part of the file. They are a parameter of every
    operation (a record of four functions), so that the theorems hold for every
    JSON and schema layer. Two small layers are defined to run the store on.

  The calls of the logger have no effect on files or results and are left out, and so
  is the cache of the one store instance (\<^verbatim>\<open>getEvalStore\<close>, \<^verbatim>\<open>reset\<close>): every
  operation takes the files as they are and returns them as it leaves them.
\<close>

subsection \<open>JavaScript strings\<close>

text \<open>\<^verbatim>\<open>INDEX_DELIMITER = '\n'\<close>: the line feed.\<close>

definition INDEX_DELIMITER :: char where
  "INDEX_DELIMITER = CHR 0x0A"

text \<open>
  \<^verbatim>\<open>data.slice(0, -1)\<close>: the string without its last character (the empty string
  stays empty).
\<close>

definition slice_0_m1 :: "string \<Rightarrow> string" where
  "slice_0_m1 data = butlast data"

text \<open>
  \<^verbatim>\<open>s.split(d)\<close> for a separator of one character: the pieces between the
  separators. The result is never empty: \<^verbatim>\<open>''.split('\n')\<close> is \<^verbatim>\<open>['']\<close>, and a
  string that ends with the separator has a last piece that is empty.
\<close>

fun split :: "char \<Rightarrow> string \<Rightarrow> string list" where
  "split d [] = [[]]"
| "split d (c # cs) =
     (if c = d then [] # split d cs
      else (c # hd (split d cs)) # tl (split d cs))"

text \<open>\<^verbatim>\<open>entries.join(d)\<close>: the entries with the separator between them.\<close>

fun join :: "char \<Rightarrow> string list \<Rightarrow> string" where
  "join d [] = []"
| "join d [x] = x"
| "join d (x # y # zs) = x @ d # join d (y # zs)"

text \<open>The carriage return.\<close>

definition CARRIAGE_RETURN :: char where
  "CARRIAGE_RETURN = CHR 0x0D"

text \<open>
  The lines that \<^verbatim>\<open>readline.createInterface\<close> yields for a stream with the given
  content. Node's \<^verbatim>\<open>readline\<close> ends a line at a line feed, at a carriage return,
  and at a carriage return with the line feed after it (one line ending, not two).
  \<open>readline_pieces\<close> are the pieces between these line endings, with the piece after
  the last ending; \<open>readline\<close> leaves that last piece out when it is empty, as the
  interface emits what is left at the end of the stream only when something is left.
  Node also ends a line at the Unicode line and paragraph separators (U+2028 and
  U+2029); a character of the model is one of the 256 of \<open>char\<close>, and these two are
  not among them.
\<close>

fun readline_pieces :: "string \<Rightarrow> string list" where
  "readline_pieces [] = [[]]"
| "readline_pieces [c] =
     (if c = INDEX_DELIMITER \<or> c = CARRIAGE_RETURN then [[], []] else [[c]])"
| "readline_pieces (c # c' # cs) =
     (if c = CARRIAGE_RETURN \<and> c' = INDEX_DELIMITER then [] # readline_pieces cs
      else if c = INDEX_DELIMITER \<or> c = CARRIAGE_RETURN then [] # readline_pieces (c' # cs)
      else (c # hd (readline_pieces (c' # cs))) # tl (readline_pieces (c' # cs)))"

definition readline :: "string \<Rightarrow> string list" where
  "readline data =
     (if last (readline_pieces data) = [] then butlast (readline_pieces data)
      else readline_pieces data)"

subsection \<open>Errors\<close>

text \<open>
  What \<^verbatim>\<open>Schema.parse(JSON.parse(text))\<close> can throw: the \<^verbatim>\<open>SyntaxError\<close> of
  \<^verbatim>\<open>JSON.parse\<close> for text that is not JSON, or the \<^verbatim>\<open>ZodError\<close> of the schema for
  a JSON value of the wrong shape.
\<close>

datatype parse_error = SyntaxError | ZodError

text \<open>
  What an operation of the store can fail with: \<open>CannotFind id\<close> is the
  \<^verbatim>\<open>Error("Cannot find evalRun with id '...'")\<close> of \<^verbatim>\<open>delete\<close>, \<open>Malformed\<close> a
  failure to parse a record or an index line, and \<open>ENOENT path\<close> the file system's
  error for a path that is not there.
\<close>

datatype error = CannotFind string | Malformed parse_error | ENOENT string

subsection \<open>The file system\<close>

text \<open>
  The files of the store, by path. The model has plain files only; a write always
  succeeds (a full disk or a missing permission is outside the model).
\<close>

type_synonym path = string
type_synonym fs = "path \<rightharpoonup> string"

definition existsSync :: "path \<Rightarrow> fs \<Rightarrow> bool" where
  "existsSync p files = (files p \<noteq> None)"

definition writeFile :: "path \<Rightarrow> string \<Rightarrow> fs \<Rightarrow> fs" where
  "writeFile p data files = files(p \<mapsto> data)"

text \<open>\<^verbatim>\<open>appendFile\<close> creates the file when it is not there.\<close>

definition appendFile :: "path \<Rightarrow> string \<Rightarrow> fs \<Rightarrow> fs" where
  "appendFile p data files =
     (case files p of None \<Rightarrow> files(p \<mapsto> data) | Some old \<Rightarrow> files(p \<mapsto> old @ data))"

definition readFile :: "path \<Rightarrow> fs \<Rightarrow> error + string" where
  "readFile p files = (case files p of None \<Rightarrow> Inl (ENOENT p) | Some data \<Rightarrow> Inr data)"

definition unlink :: "path \<Rightarrow> fs \<Rightarrow> (error + unit) \<times> fs" where
  "unlink p files =
     (case files p of None \<Rightarrow> (Inl (ENOENT p), files) | Some _ \<Rightarrow> (Inr (), files(p := None)))"

text \<open>
  \<^verbatim>\<open>path.resolve(dir, name)\<close> for a name that is one path component: the name
  below the directory. Paths are written relative to the working directory of the
  process, which never changes.
\<close>

definition path_resolve :: "path \<Rightarrow> string \<Rightarrow> path" where
  "path_resolve dir name = dir @ ''/'' @ name"

subsection \<open>The data model\<close>

text \<open>
  Modelled from the spec: the types \<^verbatim>\<open>EvalRunKey\<close> and \<^verbatim>\<open>EvalRun\<close> are declared in
  \<^verbatim>\<open>../types/eval\<close>, which is not among the sources. A key has the two fields the
  store reads, both strings; the record's extension carries the other fields of a
  key. A run is its key and a payload that the store never looks at.
\<close>

record EvalRunKey =
  evalRunId :: string
  actionRef :: string

record ('k, 'p) EvalRun =
  key :: "'k EvalRunKey_scheme"
  payload :: 'p

text \<open>
  Modelled from the spec: \<^verbatim>\<open>ListEvalKeysRequest\<close> and \<^verbatim>\<open>ListEvalKeysResponse\<close> are
  declared in \<^verbatim>\<open>../types/apis\<close>, which is not among the sources:
  \<^verbatim>\<open>{ filter?: { actionRef?: string } }\<close> and \<^verbatim>\<open>{ evalRunKeys: EvalRunKey[] }\<close>.
  An optional field is an \<open>option\<close>. The two fields of the request are named
  \<open>request_filter\<close> and \<open>filter_actionRef\<close> here, since \<open>filter\<close> is the list
  function and \<open>actionRef\<close> the field of a key.
\<close>

record ListEvalKeysFilter =
  filter_actionRef :: "string option"

record ListEvalKeysRequest =
  request_filter :: "ListEvalKeysFilter option"

record 'k ListEvalKeysResponse =
  evalRunKeys :: "'k EvalRunKey_scheme list"

text \<open>
  The JSON and schema layer, as the store uses it:
  \<^item> \<open>JSON_stringify_run\<close> is \<^verbatim>\<open>JSON.stringify(evalRun)\<close>,
  \<^item> \<open>JSON_stringify_key\<close> is \<^verbatim>\<open>JSON.stringify(evalRun.key)\<close>,
  \<^item> \<open>EvalRunSchema_parse\<close> is \<^verbatim>\<open>EvalRunSchema.parse(JSON.parse(data))\<close>,
  \<^item> \<open>EvalRunKeySchema_parse\<close> is \<^verbatim>\<open>EvalRunKeySchema.parse(JSON.parse(line))\<close>.
\<close>

record ('k, 'p) schema_layer =
  JSON_stringify_run :: "('k, 'p) EvalRun \<Rightarrow> string"
  JSON_stringify_key :: "'k EvalRunKey_scheme \<Rightarrow> string"
  EvalRunSchema_parse :: "string \<Rightarrow> parse_error + ('k, 'p) EvalRun"
  EvalRunKeySchema_parse :: "string \<Rightarrow> parse_error + 'k EvalRunKey_scheme"

subsection \<open>The store\<close>

text \<open>\<^verbatim>\<open>generateRootPath\<close>: \<^verbatim>\<open>path.resolve(process.cwd(), '.genkit/evals')\<close>.\<close>

definition generateRootPath :: path where
  "generateRootPath = ''.genkit/evals''"

abbreviation storeRoot :: path where
  "storeRoot \<equiv> generateRootPath"

definition getIndexFilePath :: path where
  "getIndexFilePath = path_resolve storeRoot ''index.txt''"

abbreviation indexFile :: path where
  "indexFile \<equiv> getIndexFilePath"

definition generateFileName :: "string \<Rightarrow> string" where
  "generateFileName evalRunId' = evalRunId' @ ''.json''"

text \<open>
  The \<^verbatim>\<open>filePath\<close> of \<^verbatim>\<open>load\<close> and \<^verbatim>\<open>delete\<close>, which \<^verbatim>\<open>save\<close> writes to as well:
  \<^verbatim>\<open>path.resolve(this.storeRoot, this.generateFileName(evalRunId))\<close>.
\<close>

abbreviation filePath :: "string \<Rightarrow> path" where
  "filePath evalRunId' \<equiv> path_resolve storeRoot (generateFileName evalRunId')"

text \<open>
  The constructor: \<^verbatim>\<open>mkdirSync\<close> has nothing to do in a model without
  directories; the index file is created empty when it is not there.
\<close>

definition constructor :: "fs \<Rightarrow> fs" where
  "constructor files =
     (if \<not> existsSync indexFile files then writeFile indexFile [] files else files)"

text \<open>
  \<^verbatim>\<open>save\<close>: write the record file, then append the key's line to the index. Neither
  write can fail in the model, so the result is always \<open>Inr ()\<close>.
\<close>

definition save ::
  "('k, 'p) schema_layer \<Rightarrow> ('k, 'p) EvalRun \<Rightarrow> fs \<Rightarrow> (error + unit) \<times> fs" where
  "save L evalRun files =
     (let fileName = generateFileName (evalRunId (key evalRun));
          files1 = writeFile (path_resolve storeRoot fileName) (JSON_stringify_run L evalRun) files;
          files2 = appendFile indexFile
                     (JSON_stringify_key L (key evalRun) @ [INDEX_DELIMITER]) files1
      in (Inr (), files2))"

text \<open>
  \<^verbatim>\<open>load\<close>: \<open>Inr None\<close> is the \<^verbatim>\<open>undefined\<close> that the method returns for a run
  that is not there.
\<close>

definition load ::
  "('k, 'p) schema_layer \<Rightarrow> string \<Rightarrow> fs \<Rightarrow> error + ('k, 'p) EvalRun option" where
  "load L evalRunId' files =
     (if \<not> existsSync (filePath evalRunId') files then Inr None
      else (case readFile (filePath evalRunId') files of
              Inl e \<Rightarrow> Inl e
            | Inr data \<Rightarrow>
                (case EvalRunSchema_parse L data of
                   Inl e \<Rightarrow> Inl (Malformed e)
                 | Inr evalRun \<Rightarrow> Inr (Some evalRun))))"

text \<open>\<^verbatim>\<open>parseLineToKey\<close>.\<close>

definition parseLineToKey ::
  "('k, 'p) schema_layer \<Rightarrow> string \<Rightarrow> error + 'k EvalRunKey_scheme" where
  "parseLineToKey L line =
     (case EvalRunKeySchema_parse L line of Inl e \<Rightarrow> Inl (Malformed e) | Inr k \<Rightarrow> Inr k)"

text \<open>
  \<^verbatim>\<open>lines.map(f)\<close> for an \<open>f\<close> that can throw: the first element that throws
  ends the whole map with its error.
\<close>

fun map_throwing :: "('a \<Rightarrow> 'e + 'b) \<Rightarrow> 'a list \<Rightarrow> 'e + 'b list" where
  "map_throwing f [] = Inr []"
| "map_throwing f (x # xs) =
     (case f x of
        Inl e \<Rightarrow> Inl e
      | Inr y \<Rightarrow> (case map_throwing f xs of Inl e \<Rightarrow> Inl e | Inr ys \<Rightarrow> Inr (y # ys)))"

text \<open>\<^verbatim>\<open>query?.filter?.actionRef\<close>: \<open>None\<close> is \<^verbatim>\<open>undefined\<close>.\<close>

definition query_filter_actionRef :: "ListEvalKeysRequest option \<Rightarrow> string option" where
  "query_filter_actionRef query =
     (case query of
        None \<Rightarrow> None
      | Some q \<Rightarrow> (case request_filter q of None \<Rightarrow> None | Some f \<Rightarrow> filter_actionRef f))"

text \<open>
  The truth value of a string or \<^verbatim>\<open>undefined\<close> in a condition: \<^verbatim>\<open>undefined\<close>
  and the empty string are false, every other string is true.
\<close>

fun truthy :: "string option \<Rightarrow> bool" where
  "truthy None = False"
| "truthy (Some s) = (s \<noteq> [])"

text \<open>
  \<^verbatim>\<open>list\<close>: the keys of the index, in the order of its lines, filtered when the
  query's \<^verbatim>\<open>actionRef\<close> is true as a condition.
\<close>

definition list ::
  "('k, 'p) schema_layer \<Rightarrow> ListEvalKeysRequest option \<Rightarrow> fs \<Rightarrow> error + 'k ListEvalKeysResponse"
  where
  "list L query files =
     (case readFile indexFile files of
        Inl e \<Rightarrow> Inl e
      | Inr data \<Rightarrow>
          (case (if data = [] then Inr []
                 else map_throwing (parseLineToKey L) (split INDEX_DELIMITER (slice_0_m1 data))) of
             Inl e \<Rightarrow> Inl e
           | Inr keys \<Rightarrow>
               Inr \<lparr>evalRunKeys =
                 (if truthy (query_filter_actionRef query)
                  then filter (\<lambda>k. Some (actionRef k) = query_filter_actionRef query) keys
                  else keys)\<rparr>))"

text \<open>
  The loop of \<^verbatim>\<open>deleteEvalRunFromIndex\<close> over the lines that remain, with the
  entries collected so far: a line that does not parse ends the loop with its error;
  a line of another run is pushed.
\<close>

fun retain_lines ::
  "('k, 'p) schema_layer \<Rightarrow> string \<Rightarrow> string list \<Rightarrow> string list \<Rightarrow> error + string list" where
  "retain_lines L evalRunId' [] entries = Inr entries"
| "retain_lines L evalRunId' (line # lines) entries =
     (case EvalRunKeySchema_parse L line of
        Inl e \<Rightarrow> Inl (Malformed e)
      | Inr entry \<Rightarrow>
          retain_lines L evalRunId' lines
            (if evalRunId entry \<noteq> evalRunId' then entries @ [line] else entries))"

text \<open>
  \<^verbatim>\<open>deleteEvalRunFromIndex\<close>: read the index line by line, then write it again
  from the lines that were kept. An error of the loop leaves the index as it was.
\<close>

definition deleteEvalRunFromIndex ::
  "('k, 'p) schema_layer \<Rightarrow> string \<Rightarrow> fs \<Rightarrow> (error + unit) \<times> fs" where
  "deleteEvalRunFromIndex L evalRunId' files =
     (case readFile getIndexFilePath files of
        Inl e \<Rightarrow> (Inl e, files)
      | Inr data \<Rightarrow>
          (case retain_lines L evalRunId' (readline data) [] of
             Inl e \<Rightarrow> (Inl e, files)
           | Inr entries \<Rightarrow>
               (Inr (),
                writeFile getIndexFilePath
                  (join INDEX_DELIMITER entries @ [INDEX_DELIMITER]) files)))"

text \<open>
  \<^verbatim>\<open>delete\<close>: the error for a run that is not there, else the record file is
  removed first and the index rewritten after.
\<close>

definition delete :: "('k, 'p) schema_layer \<Rightarrow> string \<Rightarrow> fs \<Rightarrow> (error + unit) \<times> fs" where
  "delete L evalRunId' files =
     (if \<not> existsSync (filePath evalRunId') files then (Inl (CannotFind evalRunId'), files)
      else (case unlink (filePath evalRunId') files of
              (Inl e, files1) \<Rightarrow> (Inl e, files1)
            | (Inr u, files1) \<Rightarrow> deleteEvalRunFromIndex L evalRunId' files1))"

subsection \<open>Notions of the specification\<close>

text \<open>
  What \<^verbatim>\<open>save\<close> expects of a run's id, and does not check: a file name component,
  that is, a string that is not empty and has no path separator (slash or backslash).
\<close>

definition safe_evalRunId :: "string \<Rightarrow> bool" where
  "safe_evalRunId evalRunId' =
     (evalRunId' \<noteq> [] \<and> CHR ''/'' \<notin> set evalRunId' \<and> CHR 0x5C \<notin> set evalRunId')"

text \<open>
  A text ends with the delimiter: the state in which every write of \<^verbatim>\<open>save\<close> and
  \<^verbatim>\<open>delete\<close> is meant to leave the index.
\<close>

definition ends_with_delimiter :: "string \<Rightarrow> bool" where
  "ends_with_delimiter data = (data \<noteq> [] \<and> last data = INDEX_DELIMITER)"

text \<open>
  The text of the index, for stating properties; a missing index has no text, as for
  \<^verbatim>\<open>appendFile\<close>.
\<close>

definition index_text :: "fs \<Rightarrow> string" where
  "index_text files = (case files indexFile of None \<Rightarrow> [] | Some data \<Rightarrow> data)"

text \<open>
  The lines of the index in the spec's words, to compare with what \<^verbatim>\<open>list\<close> reads:
  an empty log has no line; otherwise exactly one trailing delimiter is stripped (a
  log that does not end with the delimiter has none to strip) and the rest is split
  at the delimiter.
\<close>

definition strip_trailing_delimiter :: "string \<Rightarrow> string" where
  "strip_trailing_delimiter data = (if ends_with_delimiter data then butlast data else data)"

definition index_lines :: "string \<Rightarrow> string list" where
  "index_lines data =
     (if data = [] then [] else split INDEX_DELIMITER (strip_trailing_delimiter data))"

subsection \<open>A small JSON and schema layer\<close>

text \<open>
  One layer to run the store on: keys with no other field than the two of the record,
  runs whose payload is a string. It writes a key as
  \<^verbatim>\<open>{"evalRunId":"...","actionRef":"..."}\<close> and a run as
  \<^verbatim>\<open>{"key":{...},"payload":"..."}\<close>, as \<^verbatim>\<open>JSON.stringify\<close> does for strings that need
  no escape, and it reads back exactly the texts of this form whose strings have no
  escape; every other text, the empty one among them, is a \<open>SyntaxError\<close>.
\<close>

definition quoted :: "string \<Rightarrow> string" where
  "quoted s = CHR 0x22 # s @ [CHR 0x22]"

text \<open>\<open>expect p s\<close>: the rest of \<open>s\<close> after its prefix \<open>p\<close>.\<close>

fun expect :: "string \<Rightarrow> string \<Rightarrow> string option" where
  "expect [] s = Some s"
| "expect (p # ps) [] = None"
| "expect (p # ps) (c # cs) = (if p = c then expect ps cs else None)"

text \<open>
  The characters of a string literal up to its closing quote, and the text after that
  quote; \<open>None\<close> at a backslash, at a control character and at the end of the text.
\<close>

fun string_body :: "string \<Rightarrow> (string \<times> string) option" where
  "string_body [] = None"
| "string_body (c # cs) =
     (if c = CHR 0x22 then Some ([], cs)
      else if c = CHR 0x5C \<or> (of_char c :: nat) < 0x20 then None
      else (case string_body cs of None \<Rightarrow> None | Some (s, rest) \<Rightarrow> Some (c # s, rest)))"

text \<open>
  The characters that \<^verbatim>\<open>JSON.stringify\<close> writes as they are: all but the quote,
  the backslash and the control characters.
\<close>

definition plain_char :: "char \<Rightarrow> bool" where
  "plain_char c = (c \<noteq> CHR 0x22 \<and> c \<noteq> CHR 0x5C \<and> \<not> (of_char c :: nat) < 0x20)"

definition plain_stringify_key :: "EvalRunKey \<Rightarrow> string" where
  \<open>plain_stringify_key k =
     ''{"evalRunId":'' @ quoted (evalRunId k) @ '',"actionRef":'' @ quoted (actionRef k) @ ''}''\<close>

definition plain_stringify_run :: "(unit, string) EvalRun \<Rightarrow> string" where
  \<open>plain_stringify_run r =
     ''{"key":'' @ plain_stringify_key (key r) @ '',"payload":'' @ quoted (payload r) @ ''}''\<close>

text \<open>A key at the start of a text, with the text after it.\<close>

definition plain_key_prefix :: "string \<Rightarrow> (EvalRunKey \<times> string) option" where
  \<open>plain_key_prefix s =
     (case expect ''{"evalRunId":"'' s of
        None \<Rightarrow> None
      | Some s1 \<Rightarrow>
          (case string_body s1 of
             None \<Rightarrow> None
           | Some (i, s2) \<Rightarrow>
               (case expect '',"actionRef":"'' s2 of
                  None \<Rightarrow> None
                | Some s3 \<Rightarrow>
                    (case string_body s3 of
                       None \<Rightarrow> None
                     | Some (a, s4) \<Rightarrow>
                         (case expect ''}'' s4 of
                            None \<Rightarrow> None
                          | Some s5 \<Rightarrow> Some (\<lparr>evalRunId = i, actionRef = a\<rparr>, s5))))))\<close>

definition plain_parse_key :: "string \<Rightarrow> parse_error + EvalRunKey" where
  "plain_parse_key s =
     (case plain_key_prefix s of
        None \<Rightarrow> Inl SyntaxError
      | Some (k, rest) \<Rightarrow> (if rest = [] then Inr k else Inl SyntaxError))"

definition plain_parse_run :: "string \<Rightarrow> parse_error + (unit, string) EvalRun" where
  \<open>plain_parse_run s =
     (case expect ''{"key":'' s of
        None \<Rightarrow> Inl SyntaxError
      | Some s1 \<Rightarrow>
          (case plain_key_prefix s1 of
             None \<Rightarrow> Inl SyntaxError
           | Some (k, s2) \<Rightarrow>
               (case expect '',"payload":"'' s2 of
                  None \<Rightarrow> Inl SyntaxError
                | Some s3 \<Rightarrow>
                    (case string_body s3 of
                       None \<Rightarrow> Inl SyntaxError
                     | Some (p, s4) \<Rightarrow>
                         (if s4 = ''}'' then Inr \<lparr>key = k, payload = p\<rparr>
                          else Inl SyntaxError)))))\<close>

definition plain_layer :: "(unit, string) schema_layer" where
  "plain_layer =
     \<lparr>JSON_stringify_run = plain_stringify_run,
      JSON_stringify_key = plain_stringify_key,
      EvalRunSchema_parse = plain_parse_run,
      EvalRunKeySchema_parse = plain_parse_key\<rparr>"

text \<open>A run of this layer, and the line of its key in the index.\<close>

definition run1 :: "(unit, string) EvalRun" where
  "run1 = \<lparr>key = \<lparr>evalRunId = ''r1'', actionRef = ''a''\<rparr>, payload = ''p''\<rparr>"

definition line1 :: string where
  \<open>line1 = ''{"evalRunId":"r1","actionRef":"a"}''\<close>

text \<open>The store after \<^verbatim>\<open>save(run1)\<close> on a new store in an empty directory.\<close>

definition store1 :: fs where
  "store1 = snd (save plain_layer run1 (constructor Map.empty))"

text \<open>
  Two more keys and their lines, and an index with the three lines (of the action
  references \<^verbatim>\<open>a\<close>, \<^verbatim>\<open>b\<close>, \<^verbatim>\<open>a\<close>).
\<close>

definition key2 :: EvalRunKey where
  "key2 = \<lparr>evalRunId = ''r2'', actionRef = ''b''\<rparr>"

definition key3 :: EvalRunKey where
  "key3 = \<lparr>evalRunId = ''r3'', actionRef = ''a''\<rparr>"

definition line2 :: string where
  \<open>line2 = ''{"evalRunId":"r2","actionRef":"b"}''\<close>

definition line3 :: string where
  \<open>line3 = ''{"evalRunId":"r3","actionRef":"a"}''\<close>

definition index3 :: string where
  "index3 = line1 @ INDEX_DELIMITER # line2 @ INDEX_DELIMITER # line3 @ [INDEX_DELIMITER]"

text \<open>
  A store with this index and a record file for the second key (its content is never
  read by the operations below).
\<close>

definition store3 :: fs where
  "store3 = [filePath ''r2'' \<mapsto> ''{}'', indexFile \<mapsto> index3]"

text \<open>An index whose second line is not JSON, and a store with it.\<close>

definition index_bad :: string where
  "index_bad = line1 @ INDEX_DELIMITER # ''oops'' @ [INDEX_DELIMITER]"

definition store_bad :: fs where
  "store_bad = [filePath ''r1'' \<mapsto> plain_stringify_run run1, indexFile \<mapsto> index_bad]"

text \<open>
  Three texts that no write of the store leaves as the index: the line of the first
  key with nothing after it, that line with one more character after it, and the
  lines of the first two keys with a carriage return between them.
\<close>

definition index_unterminated :: string where
  "index_unterminated = line1"

definition index_x :: string where
  "index_x = line1 @ ''x''"

definition index_cr :: string where
  "index_cr = line1 @ CARRIAGE_RETURN # line2 @ [INDEX_DELIMITER]"

definition store_cr :: fs where
  "store_cr = [filePath ''r1'' \<mapsto> plain_stringify_run run1, indexFile \<mapsto> index_cr]"


subsection \<open>A layer with a number in the key\<close>

text \<open>
  Modelled from the spec: a key has other fields than the two that the store reads
  (\<^verbatim>\<open>JSON({evalRunId, actionRef, ...otherKeyFields})\<close>), declared in
  \<^verbatim>\<open>../types/eval\<close>, which is not among the sources. This second layer has one such
  field, an optional number named \<open>datasetVersion\<close>, under a schema that takes it as
  \<^verbatim>\<open>z.number().optional()\<close>: absent or any number but \<^verbatim>\<open>NaN\<close>.

  The numbers of the layer are the natural numbers, \<^verbatim>\<open>Infinity\<close> and \<^verbatim>\<open>NaN\<close>.
  \<^verbatim>\<open>JSON.stringify\<close> writes a natural number in decimal digits and each of the other
  two as \<^verbatim>\<open>null\<close>; it leaves out a field that is \<^verbatim>\<open>undefined\<close>.
\<close>

datatype number = Finite nat | Infinity | NaN

record VersionedKey = EvalRunKey +
  datasetVersion :: "number option"

fun digits :: "nat \<Rightarrow> string" where
  "digits n =
     (if n < 10 then [''0123456789'' ! n]
      else digits (n div 10) @ [''0123456789'' ! (n mod 10)])"

declare digits.simps [simp del]

fun stringify_number :: "number \<Rightarrow> string" where
  "stringify_number (Finite n) = digits n"
| "stringify_number Infinity = ''null''"
| "stringify_number NaN = ''null''"

definition versioned_stringify_key :: "VersionedKey \<Rightarrow> string" where
  \<open>versioned_stringify_key k =
     ''{"evalRunId":'' @ quoted (evalRunId k) @ '',"actionRef":'' @ quoted (actionRef k) @
     (case datasetVersion k of
        None \<Rightarrow> []
      | Some n \<Rightarrow> '',"datasetVersion":'' @ stringify_number n) @ ''}''\<close>

definition versioned_stringify_run :: "(unit VersionedKey_ext, string) EvalRun \<Rightarrow> string" where
  \<open>versioned_stringify_run r =
     ''{"key":'' @ versioned_stringify_key (key r) @ '',"payload":'' @ quoted (payload r) @ ''}''\<close>

text \<open>
  What \<^verbatim>\<open>JSON.parse\<close> finds for the field: it is absent, it is \<^verbatim>\<open>null\<close>, or it is a
  number.
\<close>

datatype json_field = Absent | Null | Num nat

definition is_digit :: "char \<Rightarrow> bool" where
  "is_digit c = (48 \<le> (of_char c :: nat) \<and> (of_char c :: nat) \<le> 57)"

text \<open>
  A natural number in decimal digits at the start of a text (no leading zero before
  another digit), with the text after it.
\<close>

definition number_literal :: "string \<Rightarrow> (nat \<times> string) option" where
  "number_literal s =
     (let ds = takeWhile is_digit s
      in if ds = [] \<or> (1 < length ds \<and> hd ds = CHR ''0'') then None
         else Some (foldl (\<lambda>n c. 10 * n + (of_char c - 48)) 0 ds, dropWhile is_digit s))"

text \<open>
  The \<^verbatim>\<open>JSON.parse\<close> of a key at the start of a text: the two strings and the field,
  with the text after the key.
\<close>

definition versioned_json_key :: "string \<Rightarrow> ((string \<times> string \<times> json_field) \<times> string) option"
  where
  \<open>versioned_json_key s =
     (case expect ''{"evalRunId":"'' s of
        None \<Rightarrow> None
      | Some s1 \<Rightarrow>
          (case string_body s1 of
             None \<Rightarrow> None
           | Some (i, s2) \<Rightarrow>
               (case expect '',"actionRef":"'' s2 of
                  None \<Rightarrow> None
                | Some s3 \<Rightarrow>
                    (case string_body s3 of
                       None \<Rightarrow> None
                     | Some (a, s4) \<Rightarrow>
                         (case expect ''}'' s4 of
                            Some s5 \<Rightarrow> Some ((i, a, Absent), s5)
                          | None \<Rightarrow>
                              (case expect '',"datasetVersion":'' s4 of
                                 None \<Rightarrow> None
                               | Some s5 \<Rightarrow>
                                   (case expect ''null}'' s5 of
                                      Some s6 \<Rightarrow> Some ((i, a, Null), s6)
                                    | None \<Rightarrow>
                                        (case number_literal s5 of
                                           None \<Rightarrow> None
                                         | Some (n, s6) \<Rightarrow>
                                             (case expect ''}'' s6 of
                                                None \<Rightarrow> None
                                              | Some s7 \<Rightarrow> Some ((i, a, Num n), s7))))))))))\<close>

text \<open>
  The key schema on the parsed value: \<^verbatim>\<open>z.number().optional()\<close> takes an absent field
  and a number, and rejects \<^verbatim>\<open>null\<close>.
\<close>

fun versioned_key_schema :: "string \<times> string \<times> json_field \<Rightarrow> parse_error + VersionedKey" where
  "versioned_key_schema (i, a, Absent) =
     Inr \<lparr>evalRunId = i, actionRef = a, datasetVersion = None\<rparr>"
| "versioned_key_schema (i, a, Num n) =
     Inr \<lparr>evalRunId = i, actionRef = a, datasetVersion = Some (Finite n)\<rparr>"
| "versioned_key_schema (i, a, Null) = Inl ZodError"

definition versioned_parse_key :: "string \<Rightarrow> parse_error + VersionedKey" where
  "versioned_parse_key s =
     (case versioned_json_key s of
        None \<Rightarrow> Inl SyntaxError
      | Some (v, rest) \<Rightarrow> (if rest = [] then versioned_key_schema v else Inl SyntaxError))"

definition versioned_parse_run ::
  "string \<Rightarrow> parse_error + (unit VersionedKey_ext, string) EvalRun" where
  \<open>versioned_parse_run s =
     (case expect ''{"key":'' s of
        None \<Rightarrow> Inl SyntaxError
      | Some s1 \<Rightarrow>
          (case versioned_json_key s1 of
             None \<Rightarrow> Inl SyntaxError
           | Some (v, s2) \<Rightarrow>
               (case expect '',"payload":"'' s2 of
                  None \<Rightarrow> Inl SyntaxError
                | Some s3 \<Rightarrow>
                    (case string_body s3 of
                       None \<Rightarrow> Inl SyntaxError
                     | Some (p, s4) \<Rightarrow>
                         (if s4 = ''}''
                          then (case versioned_key_schema v of
                                  Inl e \<Rightarrow> Inl e
                                | Inr k \<Rightarrow> Inr \<lparr>key = k, payload = p\<rparr>)
                          else Inl SyntaxError)))))\<close>

definition versioned_layer :: "(unit VersionedKey_ext, string) schema_layer" where
  "versioned_layer =
     \<lparr>JSON_stringify_run = versioned_stringify_run,
      JSON_stringify_key = versioned_stringify_key,
      EvalRunSchema_parse = versioned_parse_run,
      EvalRunKeySchema_parse = versioned_parse_key\<rparr>"

text \<open>
  The runs that the run schema of this layer accepts as values: those whose
  \<open>datasetVersion\<close> is not \<^verbatim>\<open>NaN\<close>.
\<close>

definition versioned_valid :: "(unit VersionedKey_ext, string) EvalRun \<Rightarrow> bool" where
  "versioned_valid r = (datasetVersion (key r) \<noteq> Some NaN)"

text \<open>A run with the version 2, and a run with the version \<^verbatim>\<open>Infinity\<close>.\<close>

definition run_v2 :: "(unit VersionedKey_ext, string) EvalRun" where
  "run_v2 = \<lparr>key = \<lparr>evalRunId = ''r1'', actionRef = ''a'', datasetVersion = Some (Finite 2)\<rparr>,
             payload = ''p''\<rparr>"

definition run_inf :: "(unit VersionedKey_ext, string) EvalRun" where
  "run_inf = \<lparr>key = \<lparr>evalRunId = ''r1'', actionRef = ''a'', datasetVersion = Some Infinity\<rparr>,
              payload = ''p''\<rparr>"

section \<open>Properties\<close>

subsection \<open>Strings and lines\<close>

lemma indexFile_neq_record:
  "getIndexFilePath \<noteq> path_resolve storeRoot (generateFileName i)"
proof
  assume "getIndexFilePath = path_resolve storeRoot (generateFileName i)"
  then have "last getIndexFilePath = last (path_resolve storeRoot (generateFileName i))"
    by simp
  then show False
    by (simp add: getIndexFilePath_def path_resolve_def generateFileName_def)
qed

lemma split_not_Nil: "split d s \<noteq> []"
  by (induction s) auto

lemma split_no_delimiter: "l \<in> set (split d s) \<Longrightarrow> d \<notin> set l"
proof (induction s arbitrary: l)
  case Nil
  then show ?case by simp
next
  case (Cons c cs)
  show ?case
  proof (cases "c = d")
    case True
    with Cons show ?thesis by auto
  next
    case False
    from split_not_Nil [of d cs] obtain p ps where sp: "split d cs = p # ps"
      by (cases "split d cs") auto
    with Cons False show ?thesis by auto
  qed
qed

lemma split_append_delimiter: "split d (s @ d # t) = split d s @ split d t"
proof (induction s)
  case Nil
  then show ?case by simp
next
  case (Cons c cs)
  from split_not_Nil [of d cs] obtain p ps where sp: "split d cs = p # ps"
    by (cases "split d cs") auto
  with Cons show ?case by simp
qed

lemma split_without_delimiter: "d \<notin> set s \<Longrightarrow> split d s = [s]"
  by (induction s) auto

lemma split_join:
  "lines \<noteq> [] \<Longrightarrow> (\<And>l. l \<in> set lines \<Longrightarrow> d \<notin> set l) \<Longrightarrow> split d (join d lines) = lines"
proof (induction d lines rule: join.induct)
  case (1 d)
  then show ?case by simp
next
  case (2 d x)
  then show ?case by (simp add: split_without_delimiter)
next
  case (3 d x y zs)
  then show ?case by (simp add: split_append_delimiter split_without_delimiter)
qed

lemma delimiter_neq_carriage_return: "INDEX_DELIMITER \<noteq> CARRIAGE_RETURN"
  by (simp add: INDEX_DELIMITER_def CARRIAGE_RETURN_def)

lemma readline_pieces_not_Nil: "readline_pieces s \<noteq> []"
  by (induction s rule: readline_pieces.induct) auto

lemma readline_pieces_no_delimiter:
  "l \<in> set (readline_pieces s) \<Longrightarrow> INDEX_DELIMITER \<notin> set l \<and> CARRIAGE_RETURN \<notin> set l"
proof (induction s arbitrary: l rule: readline_pieces.induct)
  case 1
  then show ?case by simp
next
  case (2 c)
  then show ?case by (auto split: if_splits)
next
  case (3 c c' cs)
  from readline_pieces_not_Nil [of "c' # cs"] obtain p ps where
    sp: "readline_pieces (c' # cs) = p # ps"
    by (cases "readline_pieces (c' # cs)") auto
  show ?case
  proof (cases "c = CARRIAGE_RETURN \<and> c' = INDEX_DELIMITER")
    case True
    with 3 show ?thesis by auto
  next
    case no_crlf: False
    show ?thesis
    proof (cases "c = INDEX_DELIMITER \<or> c = CARRIAGE_RETURN")
      case True
      with no_crlf "3.IH"(2) "3.prems" show ?thesis by auto
    next
      case False
      with no_crlf "3.IH"(3) "3.prems" sp show ?thesis by auto
    qed
  qed
qed

text \<open>On a text with no carriage return the pieces are those of \<^verbatim>\<open>split\<close>.\<close>

lemma readline_pieces_split:
  "CARRIAGE_RETURN \<notin> set s \<Longrightarrow> readline_pieces s = split INDEX_DELIMITER s"
  by (induction s rule: readline_pieces.induct) auto

lemma readline_ends_with_delimiter:
  "CARRIAGE_RETURN \<notin> set s \<Longrightarrow> readline (s @ [INDEX_DELIMITER]) = split INDEX_DELIMITER s"
  using delimiter_neq_carriage_return
  by (simp add: readline_def readline_pieces_split split_append_delimiter)

lemma readline_eq_list_lines:
  assumes "data \<noteq> []" "last data = INDEX_DELIMITER" "CARRIAGE_RETURN \<notin> set data"
  shows "readline data = split INDEX_DELIMITER (slice_0_m1 data)"
proof -
  from assms(1,2) have "data = butlast data @ [INDEX_DELIMITER]"
    by (metis append_butlast_last_id)
  then have "readline data = readline (butlast data @ [INDEX_DELIMITER])" by simp
  moreover from assms(3) have "CARRIAGE_RETURN \<notin> set (butlast data)"
    by (auto dest: in_set_butlastD)
  ultimately show ?thesis by (simp add: readline_ends_with_delimiter slice_0_m1_def)
qed

lemma readline_no_delimiter: "l \<in> set (readline data) \<Longrightarrow> INDEX_DELIMITER \<notin> set l"
  by (auto simp: readline_def dest: readline_pieces_no_delimiter in_set_butlastD
      split: if_splits)

lemma butlast_join_delimiter: "slice_0_m1 (join d ls @ [d]) = join d ls"
  by (simp add: slice_0_m1_def)

lemma join_delimiter_concat:
  "entries \<noteq> [] \<Longrightarrow> join d entries @ [d] = concat (map (\<lambda>l. l @ [d]) entries)"
  by (induction d entries rule: join.induct) auto

lemma map_throwing_Inr: "(map_throwing f xs = Inr ys) = (map f xs = map Inr ys)"
proof (induction xs arbitrary: ys)
  case Nil
  then show ?case by auto
next
  case (Cons x xs)
  show ?case
  proof (cases "f x")
    case (Inl e)
    then show ?thesis by (cases ys) auto
  next
    case fx: (Inr y)
    show ?thesis
    proof (cases "map_throwing f xs")
      case (Inl e)
      with Cons.IH have "\<And>zs. map f xs \<noteq> map Inr zs" by simp
      with fx Inl show ?thesis by (cases ys) auto
    next
      case (Inr zs)
      with Cons.IH [of zs] have "map f xs = map Inr zs" by simp
      with fx Inr show ?thesis by (cases ys) (auto simp: inj_map_eq_map)
    qed
  qed
qed

lemma map_throwing_Inl:
  "map_throwing f xs = Inl e \<Longrightarrow> \<exists>x \<in> set xs. f x = Inl e"
  by (induction xs) (auto split: sum.splits)

lemma map_throwing_bad:
  "x \<in> set xs \<Longrightarrow> f x = Inl e \<Longrightarrow> \<exists>e'. map_throwing f xs = Inl e'"
  by (induction xs) (auto split: sum.splits)

lemma parseLineToKey_Inl: "parseLineToKey L l = Inl e \<Longrightarrow> \<exists>pe. e = Malformed pe"
  by (auto simp: parseLineToKey_def split: sum.splits)

lemma map_parseLineToKey:
  "map (EvalRunKeySchema_parse L) ls = map Inr ks \<Longrightarrow> map (parseLineToKey L) ls = map Inr ks"
  by (induction ls arbitrary: ks) (auto simp: parseLineToKey_def)

lemma retain_lines_bad:
  "l \<in> set lines \<Longrightarrow> EvalRunKeySchema_parse L l = Inl e \<Longrightarrow>
   \<exists>e'. retain_lines L i lines acc = Inl (Malformed e')"
  by (induction lines arbitrary: acc) (auto split: sum.splits)

lemma retain_lines_Inr:
  "retain_lines L i lines acc = Inr entries \<Longrightarrow>
   (\<forall>l \<in> set lines. \<exists>k. EvalRunKeySchema_parse L l = Inr k) \<and>
   entries = acc @ filter (\<lambda>l. \<forall>k. EvalRunKeySchema_parse L l = Inr k \<longrightarrow> evalRunId k \<noteq> i) lines"
proof (induction lines arbitrary: acc)
  case Nil
  then show ?case by simp
next
  case (Cons l ls)
  from Cons.prems obtain k where k: "EvalRunKeySchema_parse L l = Inr k"
    by (cases "EvalRunKeySchema_parse L l") auto
  show ?case
  proof (cases "evalRunId k \<noteq> i")
    case True
    with Cons.prems k have "retain_lines L i ls (acc @ [l]) = Inr entries" by simp
    from Cons.IH [OF this] k True show ?thesis by simp
  next
    case False
    with Cons.prems k have "retain_lines L i ls acc = Inr entries" by simp
    from Cons.IH [OF this] k False show ?thesis by simp
  qed
qed

subsection \<open>The small layer\<close>

lemma string_body_plain:
  "list_all plain_char s \<Longrightarrow> string_body (s @ CHR 0x22 # rest) = Some (s, rest)"
  by (induction s) (simp_all add: plain_char_def)

lemma expect_prefix: "expect p (p @ s) = Some s"
  by (induction p) simp_all

lemma plain_key_prefix_stringify:
  assumes "list_all plain_char (evalRunId k)" and "list_all plain_char (actionRef k)"
  shows "plain_key_prefix (plain_stringify_key k @ rest) = Some (k, rest)"
proof -
  have shape: \<open>plain_stringify_key k @ rest =
      ''{"evalRunId":"'' @ (evalRunId k @ CHR 0x22 #
        ('',"actionRef":"'' @ (actionRef k @ CHR 0x22 # (''}'' @ rest))))\<close>
    by (simp add: plain_stringify_key_def quoted_def)
  show ?thesis
    unfolding plain_key_prefix_def shape
    by (simp only: expect_prefix string_body_plain [OF assms(1)] string_body_plain [OF assms(2)]
        option.case prod.case) simp
qed

lemma plain_parse_key_stringify:
  assumes "list_all plain_char (evalRunId k)" and "list_all plain_char (actionRef k)"
  shows "plain_parse_key (plain_stringify_key k) = Inr k"
  using plain_key_prefix_stringify [OF assms, of "[]"]
  by (simp add: plain_parse_key_def)

lemma plain_parse_run_stringify:
  assumes "list_all plain_char (evalRunId (key r))" and "list_all plain_char (actionRef (key r))"
      and "list_all plain_char (payload r)"
  shows "plain_parse_run (plain_stringify_run r) = Inr r"
proof -
  have shape: \<open>plain_stringify_run r =
      ''{"key":'' @ (plain_stringify_key (key r) @
        ('',"payload":"'' @ (payload r @ CHR 0x22 # ''}'')))\<close>
    by (simp add: plain_stringify_run_def quoted_def)
  show ?thesis
    unfolding plain_parse_run_def shape
    by (simp only: expect_prefix plain_key_prefix_stringify [OF assms(1,2)]
        string_body_plain [OF assms(3)] option.case prod.case) simp
qed

lemma plain_stringify_key_one_line:
  assumes "list_all plain_char (evalRunId k)" and "list_all plain_char (actionRef k)"
  shows "INDEX_DELIMITER \<notin> set (plain_stringify_key k)"
proof -
  have "\<not> plain_char INDEX_DELIMITER"
    by (simp add: plain_char_def INDEX_DELIMITER_def)
  with assms have "INDEX_DELIMITER \<notin> set (evalRunId k)" "INDEX_DELIMITER \<notin> set (actionRef k)"
    by (auto simp: list_all_iff)
  then show ?thesis
    by (simp add: plain_stringify_key_def quoted_def) (simp add: INDEX_DELIMITER_def)
qed

lemma plain_roundtrip_run1: "plain_parse_run (plain_stringify_run run1) = Inr run1"
  by (simp add: plain_parse_run_def plain_stringify_run_def run1_def plain_key_prefix_def
      plain_stringify_key_def quoted_def)

lemma plain_stringify_key_run1: "plain_stringify_key (key run1) = line1"
  by (simp add: plain_stringify_key_def run1_def line1_def quoted_def)

lemma plain_parse_key_line1: "plain_parse_key line1 = Inr (key run1)"
  by (simp add: plain_parse_key_def plain_key_prefix_def line1_def run1_def)

lemma plain_parse_key_line2: "plain_parse_key line2 = Inr key2"
  by (simp add: plain_parse_key_def plain_key_prefix_def line2_def key2_def)

lemma plain_parse_key_line3: "plain_parse_key line3 = Inr key3"
  by (simp add: plain_parse_key_def plain_key_prefix_def line3_def key3_def)

lemma plain_parse_key_empty: "plain_parse_key [] = Inl SyntaxError"
  by (simp add: plain_parse_key_def plain_key_prefix_def)

lemma plain_parse_key_oops: "plain_parse_key ''oops'' = Inl SyntaxError"
  by (simp add: plain_parse_key_def plain_key_prefix_def)

lemma plain_layer_simps:
  "JSON_stringify_run plain_layer = plain_stringify_run"
  "JSON_stringify_key plain_layer = plain_stringify_key"
  "EvalRunSchema_parse plain_layer = plain_parse_run"
  "EvalRunKeySchema_parse plain_layer = plain_parse_key"
  by (simp_all add: plain_layer_def)

lemma delimiter_not_in_lines:
  "INDEX_DELIMITER \<notin> set line1" "INDEX_DELIMITER \<notin> set line2" "INDEX_DELIMITER \<notin> set line3"
  "INDEX_DELIMITER \<notin> set ''oops''"
  by (simp_all add: INDEX_DELIMITER_def line1_def line2_def line3_def)

lemma carriage_return_not_in_lines:
  "CARRIAGE_RETURN \<notin> set line1" "CARRIAGE_RETURN \<notin> set line2" "CARRIAGE_RETURN \<notin> set line3"
  "CARRIAGE_RETURN \<notin> set ''oops''"
  by (simp_all add: CARRIAGE_RETURN_def line1_def line2_def line3_def)

lemma split_line1: "split INDEX_DELIMITER line1 = [line1]"
  by (simp add: split_without_delimiter delimiter_not_in_lines)

lemma split_index3:
  "split INDEX_DELIMITER (slice_0_m1 index3) = [line1, line2, line3]"
  by (simp add: index3_def slice_0_m1_def butlast_append split_append_delimiter
      split_without_delimiter delimiter_not_in_lines)

lemma split_oops: "split INDEX_DELIMITER ''oops'' = [''oops'']"
  by (simp add: INDEX_DELIMITER_def)

lemma readline_index_bad: "readline index_bad = [line1, ''oops'']"
proof -
  have "CARRIAGE_RETURN \<notin> set (line1 @ INDEX_DELIMITER # ''oops'')"
    by (simp add: CARRIAGE_RETURN_def INDEX_DELIMITER_def line1_def)
  then have "readline ((line1 @ INDEX_DELIMITER # ''oops'') @ [INDEX_DELIMITER])
               = split INDEX_DELIMITER (line1 @ INDEX_DELIMITER # ''oops'')"
    by (rule readline_ends_with_delimiter)
  moreover have "index_bad = (line1 @ INDEX_DELIMITER # ''oops'') @ [INDEX_DELIMITER]"
    by (simp add: index_bad_def)
  moreover have "split INDEX_DELIMITER (line1 @ INDEX_DELIMITER # ''oops'') = [line1, ''oops'']"
    by (simp only: split_append_delimiter split_line1 split_oops append.simps)
  ultimately show ?thesis by simp
qed

lemma list_lines_index_bad:
  "split INDEX_DELIMITER (slice_0_m1 index_bad) = [line1, ''oops'']"
proof -
  have "index_bad \<noteq> []" "last index_bad = INDEX_DELIMITER"
    by (simp_all add: index_bad_def)
  moreover have "CARRIAGE_RETURN \<notin> set index_bad"
    by (simp add: index_bad_def CARRIAGE_RETURN_def INDEX_DELIMITER_def line1_def)
  ultimately have "readline index_bad = split INDEX_DELIMITER (slice_0_m1 index_bad)"
    by (rule readline_eq_list_lines)
  then show ?thesis
    by (simp add: readline_index_bad)
qed

lemma readline_index3: "readline index3 = [line1, line2, line3]"
proof -
  have "index3 \<noteq> []" "last index3 = INDEX_DELIMITER"
    by (simp_all add: index3_def)
  moreover have "CARRIAGE_RETURN \<notin> set index3"
    using delimiter_neq_carriage_return
    by (simp add: index3_def carriage_return_not_in_lines)
  ultimately have "readline index3 = split INDEX_DELIMITER (slice_0_m1 index3)"
    by (rule readline_eq_list_lines)
  then show ?thesis
    by (simp add: split_index3)
qed

lemma run1_fields: "evalRunId (key run1) = ''r1''" "actionRef (key run1) = ''a''"
  by (simp_all add: run1_def)

lemma store1_files:
  "store1 = [filePath ''r1'' \<mapsto> plain_stringify_run run1, indexFile \<mapsto> line1 @ [INDEX_DELIMITER]]"
  using indexFile_neq_record [of "''r1''"]
  by (simp add: store1_def save_def Let_def constructor_def existsSync_def writeFile_def
      appendFile_def plain_layer_simps plain_stringify_key_run1 run1_fields fun_upd_twist)

text \<open>
  On a log that is empty or ends with the delimiter, the lines in the spec's words are
  the lines that \<^verbatim>\<open>list\<close> reads.
\<close>

lemma index_lines_list_lines:
  "data = [] \<or> ends_with_delimiter data \<Longrightarrow>
   index_lines data = (if data = [] then [] else split INDEX_DELIMITER (slice_0_m1 data))"
  by (auto simp: index_lines_def strip_trailing_delimiter_def slice_0_m1_def)

lemma line1_ends: "line1 \<noteq> []" "last line1 \<noteq> INDEX_DELIMITER"
  by (simp_all add: line1_def INDEX_DELIMITER_def)

lemma index_lines_unterminated: "index_lines index_unterminated = [line1]"
  by (simp add: index_lines_def strip_trailing_delimiter_def ends_with_delimiter_def
      index_unterminated_def split_line1 line1_ends)

lemma index_lines_x: "index_lines index_x = [index_x]"
proof -
  have "INDEX_DELIMITER \<notin> set index_x"
    by (simp add: index_x_def line1_def INDEX_DELIMITER_def)
  moreover have "\<not> ends_with_delimiter index_x" "index_x \<noteq> []"
    by (simp_all add: ends_with_delimiter_def index_x_def INDEX_DELIMITER_def)
  ultimately show ?thesis
    by (simp add: index_lines_def strip_trailing_delimiter_def split_without_delimiter)
qed

lemma plain_parse_key_index_x: "plain_parse_key index_x = Inl SyntaxError"
  by (simp add: plain_parse_key_def plain_key_prefix_def index_x_def line1_def)

lemma plain_parse_key_cut: "plain_parse_key (butlast line1) = Inl SyntaxError"
  by (simp add: plain_parse_key_def plain_key_prefix_def line1_def)

lemma split_cut_line1: "split INDEX_DELIMITER (butlast line1) = [butlast line1]"
  by (rule split_without_delimiter) (simp add: line1_def INDEX_DELIMITER_def)

lemma index3_ends: "index3 \<noteq> []" "ends_with_delimiter index3"
  by (simp_all add: index3_def ends_with_delimiter_def)

subsection \<open>The layer with a number in the key\<close>

lemma versioned_layer_simps:
  "JSON_stringify_run versioned_layer = versioned_stringify_run"
  "JSON_stringify_key versioned_layer = versioned_stringify_key"
  "EvalRunSchema_parse versioned_layer = versioned_parse_run"
  "EvalRunKeySchema_parse versioned_layer = versioned_parse_key"
  by (simp_all add: versioned_layer_def)

lemma versioned_stringify_run_inf:
  \<open>versioned_stringify_run run_inf =
     ''{"key":{"evalRunId":"r1","actionRef":"a","datasetVersion":null},"payload":"p"}''\<close>
  by (simp add: versioned_stringify_run_def versioned_stringify_key_def run_inf_def quoted_def)

lemma versioned_parse_run_null:
  \<open>versioned_parse_run
     ''{"key":{"evalRunId":"r1","actionRef":"a","datasetVersion":null},"payload":"p"}''
   = Inl ZodError\<close>
  by (simp add: versioned_parse_run_def versioned_json_key_def)

lemma versioned_stringify_run_v2:
  \<open>versioned_stringify_run run_v2 =
     ''{"key":{"evalRunId":"r1","actionRef":"a","datasetVersion":2},"payload":"p"}''\<close>
  by (simp add: versioned_stringify_run_def versioned_stringify_key_def run_v2_def quoted_def
      digits.simps)

lemma versioned_parse_run_v2:
  \<open>versioned_parse_run
     ''{"key":{"evalRunId":"r1","actionRef":"a","datasetVersion":2},"payload":"p"}''
   = Inr run_v2\<close>
  by (simp add: versioned_parse_run_def versioned_json_key_def number_literal_def is_digit_def
      run_v2_def)

subsection \<open>What a call of \<^verbatim>\<open>delete\<close> does\<close>

lemma delete_Inr:
  assumes "files (filePath i) = Some x" and "files indexFile = Some data"
      and "retain_lines L i (readline data) [] = Inr entries"
  shows "delete L i files =
           (Inr (), (files(filePath i := None))
                      (indexFile \<mapsto> join INDEX_DELIMITER entries @ [INDEX_DELIMITER]))"
  using assms indexFile_neq_record [of i]
  by (simp add: delete_def deleteEvalRunFromIndex_def existsSync_def unlink_def readFile_def
      writeFile_def)

lemma delete_Inr_D:
  assumes "fst (delete L i files) = Inr ()"
  shows "\<exists>x data entries. files (filePath i) = Some x \<and> files indexFile = Some data \<and>
           retain_lines L i (readline data) [] = Inr entries"
  using assms indexFile_neq_record [of i]
  by (auto simp: delete_def deleteEvalRunFromIndex_def existsSync_def unlink_def readFile_def
      writeFile_def split: if_splits sum.splits option.splits)

lemma delete_removes_record:
  "fst (delete L i files) = Inr () \<Longrightarrow> snd (delete L i files) (filePath i) = None"
  using indexFile_neq_record [of i]
  by (auto simp: delete_def deleteEvalRunFromIndex_def existsSync_def unlink_def readFile_def
      writeFile_def split: if_splits sum.splits option.splits)

lemma delete_store1:
  "delete plain_layer ''r1'' store1 = (Inr (), [indexFile \<mapsto> [INDEX_DELIMITER]])"
proof -
  have "retain_lines plain_layer ''r1'' (readline (line1 @ [INDEX_DELIMITER])) [] = Inr []"
    by (simp add: readline_ends_with_delimiter carriage_return_not_in_lines split_line1
        plain_layer_simps plain_parse_key_line1 run1_fields)
  from delete_Inr [OF _ _ this, of store1 "plain_stringify_run run1"]
  show ?thesis
    using indexFile_neq_record [of "''r1''"]
    by (simp add: store1_files fun_upd_twist)
qed

lemma delete_store1_again:
  "delete plain_layer ''r1'' [indexFile \<mapsto> [INDEX_DELIMITER]] =
     (Inl (CannotFind ''r1''), [indexFile \<mapsto> [INDEX_DELIMITER]])"
  using indexFile_neq_record [of "''r1''"]
  by (simp add: delete_def existsSync_def)

lemma delete_store3:
  "delete plain_layer ''r2'' store3 =
     (Inr (), [indexFile \<mapsto> join INDEX_DELIMITER [line1, line3] @ [INDEX_DELIMITER]])"
proof -
  have a: "store3 (filePath ''r2'') = Some ''{}''"
    using indexFile_neq_record [of "''r2''"] by (simp add: store3_def)
  have b: "store3 indexFile = Some index3"
    by (simp add: store3_def)
  have c: "retain_lines plain_layer ''r2'' (readline index3) [] = Inr [line1, line3]"
    by (simp add: readline_index3 plain_layer_simps plain_parse_key_line1 plain_parse_key_line2
        plain_parse_key_line3 run1_fields key2_def key3_def)
  from delete_Inr [where files = store3 and L = plain_layer, OF a b c]
  show ?thesis
    using indexFile_neq_record [of "''r2''"]
    by (simp add: store3_def fun_upd_twist)
qed

text \<open>
  A carriage return that no line feed follows ends a line, for \<^verbatim>\<open>readline\<close> and not
  for \<^verbatim>\<open>split\<close>.
\<close>

lemma readline_pieces_carriage_return:
  assumes "INDEX_DELIMITER \<notin> set s" and "CARRIAGE_RETURN \<notin> set s"
      and "c \<noteq> INDEX_DELIMITER"
  shows "readline_pieces (s @ CARRIAGE_RETURN # c # t) = s # readline_pieces (c # t)"
  using assms(1,2)
proof (induction s)
  case Nil
  with assms(3) show ?case by simp
next
  case (Cons a s)
  then have "readline_pieces (s @ CARRIAGE_RETURN # c # t) = s # readline_pieces (c # t)"
    by simp
  moreover obtain b u where "s @ CARRIAGE_RETURN # c # t = b # u"
    by (cases s) auto
  ultimately show ?case
    using Cons.prems by auto
qed

lemma readline_index_cr: "readline index_cr = [line1, line2]"
proof -
  obtain c t where line2: "line2 = c # t" "c \<noteq> INDEX_DELIMITER"
    by (simp add: line2_def INDEX_DELIMITER_def)
  have "readline_pieces (line2 @ [INDEX_DELIMITER]) = split INDEX_DELIMITER (line2 @ [INDEX_DELIMITER])"
    using delimiter_neq_carriage_return
    by (intro readline_pieces_split) (simp add: carriage_return_not_in_lines)
  also have "\<dots> = [line2, []]"
    using split_append_delimiter [of INDEX_DELIMITER line2 "[]"]
    by (simp add: split_without_delimiter delimiter_not_in_lines)
  finally have rest: "readline_pieces (line2 @ [INDEX_DELIMITER]) = [line2, []]" .
  have "readline_pieces (line1 @ CARRIAGE_RETURN # c # (t @ [INDEX_DELIMITER]))
          = line1 # readline_pieces (c # (t @ [INDEX_DELIMITER]))"
    using line2(2)
    by (intro readline_pieces_carriage_return)
      (simp_all add: delimiter_not_in_lines carriage_return_not_in_lines)
  moreover have "c # (t @ [INDEX_DELIMITER]) = line2 @ [INDEX_DELIMITER]"
    by (simp only: line2(1) append_Cons)
  ultimately have "readline_pieces (line1 @ CARRIAGE_RETURN # line2 @ [INDEX_DELIMITER])
                     = [line1, line2, []]"
    by (simp only: rest)
  then show ?thesis
    by (simp add: readline_def index_cr_def)
qed

text \<open>
  On the index with the carriage return, \<^verbatim>\<open>delete\<close> reads two lines, drops the first
  and writes the second, while \<^verbatim>\<open>list\<close> reads one line and fails.
\<close>

lemma delete_store_cr:
  "delete plain_layer ''r1'' store_cr = (Inr (), [indexFile \<mapsto> line2 @ [INDEX_DELIMITER]])"
proof -
  have a: "store_cr (filePath ''r1'') = Some (plain_stringify_run run1)"
    using indexFile_neq_record [of "''r1''"] by (simp add: store_cr_def)
  have b: "store_cr indexFile = Some index_cr"
    by (simp add: store_cr_def)
  have c: "retain_lines plain_layer ''r1'' (readline index_cr) [] = Inr [line2]"
    by (simp add: readline_index_cr plain_layer_simps plain_parse_key_line1 plain_parse_key_line2
        run1_fields key2_def)
  from delete_Inr [where files = store_cr and L = plain_layer, OF a b c]
  show ?thesis
    using indexFile_neq_record [of "''r1''"]
    by (simp add: store_cr_def fun_upd_twist)
qed

lemma list_store_cr: "list plain_layer None store_cr = Inl (Malformed SyntaxError)"
proof -
  have "INDEX_DELIMITER \<notin> set (line1 @ CARRIAGE_RETURN # line2)"
    using delimiter_neq_carriage_return by (simp add: delimiter_not_in_lines)
  then have "split INDEX_DELIMITER (line1 @ CARRIAGE_RETURN # line2)
               = [line1 @ CARRIAGE_RETURN # line2]"
    by (rule split_without_delimiter)
  moreover have "plain_parse_key (line1 @ CARRIAGE_RETURN # line2) = Inl SyntaxError"
    by (simp add: plain_parse_key_def plain_key_prefix_def line1_def)
  moreover have "slice_0_m1 index_cr = line1 @ CARRIAGE_RETURN # line2"
    by (simp add: slice_0_m1_def index_cr_def butlast_append)
  ultimately show ?thesis
    by (simp add: list_def readFile_def store_cr_def index_cr_def parseLineToKey_def
        plain_layer_simps)
qed


lemma split_single_empty: "split d s = [[]] \<Longrightarrow> s = []"
  by (cases s) (auto simp: split_not_Nil split: if_splits)

lemma last_split_empty: "(last (split d s) = []) = (s = [] \<or> last s = d)"
proof (induction s)
  case Nil
  then show ?case by simp
next
  case (Cons c cs)
  from split_not_Nil [of d cs] obtain p ps where sp: "split d cs = p # ps"
    by (cases "split d cs") auto
  show ?case
  proof (cases "c = d")
    case True
    with Cons sp show ?thesis by (cases cs) auto
  next
    case False
    show ?thesis
    proof (cases ps)
      case Nil
      with sp split_single_empty [of d cs] Cons False show ?thesis
        by (cases cs) auto
    next
      case (Cons q qs)
      with sp Cons.IH False show ?thesis by (cases cs) auto
    qed
  qed
qed

text \<open>
  On a text with no carriage return, the lines that \<^verbatim>\<open>readline\<close> yields are the
  lines of the index in the spec's words.
\<close>

lemma readline_index_lines:
  assumes "CARRIAGE_RETURN \<notin> set data"
  shows "readline data = index_lines data"
proof (cases "data = [] \<or> last data = INDEX_DELIMITER")
  case True
  show ?thesis
  proof (cases "data = []")
    case True
    then show ?thesis by (simp add: readline_def index_lines_def)
  next
    case False
    with True have e: "ends_with_delimiter data"
      by (simp add: ends_with_delimiter_def)
    with False assms show ?thesis
      by (simp add: readline_eq_list_lines index_lines_list_lines ends_with_delimiter_def)
  qed
next
  case False
  then have "last (split INDEX_DELIMITER data) \<noteq> []"
    by (simp add: last_split_empty)
  with False assms show ?thesis
    by (simp add: readline_def readline_pieces_split index_lines_def
        strip_trailing_delimiter_def ends_with_delimiter_def)
qed

text \<open>
  So, on an index with no carriage return, a line in the spec's words that does not
  parse makes \<^verbatim>\<open>delete\<close> fail after it has removed the record file.
\<close>

lemma delete_fails_on_bad_index_line:
  assumes "existsSync (filePath i) files" and "files indexFile = Some data"
      and "CARRIAGE_RETURN \<notin> set data"
      and "line \<in> set (index_lines data)" and "EvalRunKeySchema_parse L line = Inl e"
  shows "\<exists>e'. delete L i files = (Inl (Malformed e'), files(filePath i := None))"
proof -
  from assms(3,4) have "line \<in> set (readline data)"
    by (simp add: readline_index_lines)
  from retain_lines_bad [where L = L and i = i and acc = "[]", OF this assms(5)] obtain e' where
    "retain_lines L i (readline data) [] = Inl (Malformed e')"
    by blast
  with assms(1,2) indexFile_neq_record [of i]
  have "delete L i files = (Inl (Malformed e'), files(filePath i := None))"
    by (auto simp: delete_def deleteEvalRunFromIndex_def existsSync_def unlink_def readFile_def)
  then show ?thesis by blast
qed


lemma delete_then_load:
  "fst (delete L i files) = Inr () \<Longrightarrow> load L i (snd (delete L i files)) = Inr None"
  by (simp add: load_def existsSync_def delete_removes_record)

lemma delete_Inr_index:
  assumes "fst (delete L i files) = Inr ()"
      and "retain_lines L i (readline (index_text files)) [] = Inr entries"
  shows "snd (delete L i files) indexFile
           = Some (join INDEX_DELIMITER entries @ [INDEX_DELIMITER])"
proof -
  from delete_Inr_D [OF assms(1)] obtain x data entries' where
    f: "files (filePath i) = Some x" "files indexFile = Some data"
       "retain_lines L i (readline data) [] = Inr entries'"
    by blast
  from f(2,3) assms(2) have "entries' = entries"
    by (simp add: index_text_def)
  with delete_Inr [where files = files and L = L, OF f] show ?thesis
    by simp
qed

lemma retained_parse:
  assumes "retain_lines L i lines [] = Inr entries"
  shows "\<exists>keys. map (EvalRunKeySchema_parse L) entries = map Inr keys \<and>
           i \<notin> evalRunId ` set keys"
proof -
  from retain_lines_Inr [OF assms]
  have all: "\<forall>l \<in> set lines. \<exists>k. EvalRunKeySchema_parse L l = Inr k"
    and ent: "entries = filter (\<lambda>l. \<forall>k. EvalRunKeySchema_parse L l = Inr k \<longrightarrow> evalRunId k \<noteq> i) lines"
    by simp_all
  define keys where "keys = map (\<lambda>l. projr (EvalRunKeySchema_parse L l)) entries"
  have "map (EvalRunKeySchema_parse L) entries = map Inr keys"
    unfolding keys_def using all ent by auto
  moreover have "i \<notin> evalRunId ` set keys"
    unfolding keys_def using all ent by auto
  ultimately show ?thesis by blast
qed

text \<open>
  After a \<^verbatim>\<open>delete\<close> that succeeds and keeps at least one line, \<^verbatim>\<open>list\<close> succeeds
  with the keys of the lines that were kept, none of which has the deleted id.
\<close>

lemma delete_then_list_kept:
  assumes ok: "fst (delete L i files) = Inr ()"
      and kept: "retain_lines L i (readline (index_text files)) [] = Inr entries"
      and some: "entries \<noteq> []"
  shows "\<exists>keys. list L None (snd (delete L i files)) = Inr \<lparr>evalRunKeys = keys\<rparr> \<and>
           map (EvalRunKeySchema_parse L) entries = map Inr keys \<and>
           i \<notin> evalRunId ` set keys"
proof -
  from retained_parse [OF kept] obtain keys where
    keys: "map (EvalRunKeySchema_parse L) entries = map Inr keys" "i \<notin> evalRunId ` set keys"
    by blast
  from retain_lines_Inr [OF kept] have "set entries \<subseteq> set (readline (index_text files))"
    by auto
  then have "\<And>l. l \<in> set entries \<Longrightarrow> INDEX_DELIMITER \<notin> set l"
    using readline_no_delimiter by blast
  with some have "split INDEX_DELIMITER (join INDEX_DELIMITER entries) = entries"
    by (rule split_join)
  with keys(1) have "map_throwing (parseLineToKey L)
      (split INDEX_DELIMITER (slice_0_m1 (join INDEX_DELIMITER entries @ [INDEX_DELIMITER])))
      = Inr keys"
    by (simp add: butlast_join_delimiter map_throwing_Inr map_parseLineToKey)
  with delete_Inr_index [OF ok kept]
  have "list L None (snd (delete L i files)) = Inr \<lparr>evalRunKeys = keys\<rparr>"
    by (simp add: list_def readFile_def query_filter_actionRef_def)
  with keys show ?thesis by blast
qed

text \<open>
  After a \<^verbatim>\<open>delete\<close> that succeeds and keeps no line, the index is one delimiter,
  and \<^verbatim>\<open>list\<close> fails on it for every layer that rejects the empty text (as
  \<^verbatim>\<open>JSON.parse('')\<close> does).
\<close>

lemma delete_then_list_none_kept:
  assumes ok: "fst (delete L i files) = Inr ()"
      and kept: "retain_lines L i (readline (index_text files)) [] = Inr []"
      and empty: "EvalRunKeySchema_parse L [] = Inl e"
  shows "snd (delete L i files) indexFile = Some [INDEX_DELIMITER] \<and>
         list L query (snd (delete L i files)) = Inl (Malformed e)"
  using delete_Inr_index [OF ok kept] empty
  by (simp add: list_def readFile_def slice_0_m1_def parseLineToKey_def)

subsection \<open>Saving and loading\<close>

text \<open>
  What \<^verbatim>\<open>load\<close> returns right after \<^verbatim>\<open>save\<close>: the layer's reading of the layer's
  own serialisation of the run.
\<close>

lemma load_after_save:
  "load L (evalRunId (key r)) (snd (save L r files)) =
     (case EvalRunSchema_parse L (JSON_stringify_run L r) of
        Inl e \<Rightarrow> Inl (Malformed e)
      | Inr r' \<Rightarrow> Inr (Some r'))"
  using indexFile_neq_record [of "evalRunId (key r)"]
  by (simp add: save_def load_def Let_def existsSync_def writeFile_def appendFile_def
      readFile_def split: option.splits)

text \<open>
  Claim C1 fails as stated. In the layer with a number in the key, the run whose
  \<open>datasetVersion\<close> is \<^verbatim>\<open>Infinity\<close> is valid and its id is a file name component.
  \<^verbatim>\<open>save\<close> writes the number as \<^verbatim>\<open>null\<close>, and the \<^verbatim>\<open>load\<close> that follows fails
  on it with the error of the schema instead of returning the run.
\<close>

theorem save_load_infinity_counterexample:
  "versioned_valid run_inf \<and> safe_evalRunId (evalRunId (key run_inf)) \<and>
   fst (save versioned_layer run_inf (constructor Map.empty)) = Inr () \<and>
   load versioned_layer (evalRunId (key run_inf))
     (snd (save versioned_layer run_inf (constructor Map.empty))) = Inl (Malformed ZodError)"
proof -
  have "versioned_valid run_inf" "safe_evalRunId (evalRunId (key run_inf))"
    by (simp_all add: versioned_valid_def safe_evalRunId_def run_inf_def)
  moreover have "fst (save versioned_layer run_inf (constructor Map.empty)) = Inr ()"
    by (simp add: save_def Let_def)
  moreover have "load versioned_layer (evalRunId (key run_inf))
     (snd (save versioned_layer run_inf (constructor Map.empty))) = Inl (Malformed ZodError)"
    by (simp add: load_after_save versioned_layer_simps versioned_stringify_run_inf
        versioned_parse_run_null)
  ultimately show ?thesis by blast
qed

text \<open>
  Claim C1, amended. Let \<open>r\<close> be a run that the JSON and schema layer reads back from
  its own serialisation, and let its id be a file name component (not empty, no path
  separator; the path of the model is that of such a name, and the proof needs
  nothing else of it). Then, in every state of the files, \<^verbatim>\<open>save(r)\<close> succeeds and a
  \<^verbatim>\<open>load(r.key.evalRunId)\<close> right after it returns \<open>r\<close>.
\<close>

theorem save_load_roundtrip:
  assumes "safe_evalRunId (evalRunId (key r))"
      and "EvalRunSchema_parse L (JSON_stringify_run L r) = Inr r"
  shows "fst (save L r files) = Inr () \<and>
         load L (evalRunId (key r)) (snd (save L r files)) = Inr (Some r)"
  using assms(2) indexFile_neq_record [of "evalRunId (key r)"]
  by (simp add: save_def load_def Let_def existsSync_def writeFile_def appendFile_def
      readFile_def split: option.splits)

theorem save_load_roundtrip_witness:
  "safe_evalRunId (evalRunId (key run1)) \<and>
   EvalRunSchema_parse plain_layer (JSON_stringify_run plain_layer run1) = Inr run1 \<and>
   fst (save plain_layer run1 (constructor Map.empty)) = Inr () \<and>
   load plain_layer (evalRunId (key run1)) (snd (save plain_layer run1 (constructor Map.empty)))
     = Inr (Some run1)"
proof -
  have a: "safe_evalRunId (evalRunId (key run1))"
    by (simp add: safe_evalRunId_def run1_def)
  have b: "EvalRunSchema_parse plain_layer (JSON_stringify_run plain_layer run1) = Inr run1"
    by (simp add: plain_layer_simps plain_roundtrip_run1)
  from save_load_roundtrip [OF a b, of "constructor Map.empty"] a b show ?thesis by simp
qed

text \<open>
  Claim C3. \<^verbatim>\<open>load(id)\<close> returns \<^verbatim>\<open>undefined\<close>, and no error, exactly when the
  record file of the id does not exist. When the file exists and its content parses
  and conforms to the run schema, \<^verbatim>\<open>load\<close> returns the parsed run; when the content
  does not, \<^verbatim>\<open>load\<close> fails with the parse error, and returns nothing.
\<close>

theorem load_absent_or_parsed:
  "(load L i files = Inr None \<longleftrightarrow> \<not> existsSync (filePath i) files) \<and>
   (files (filePath i) = Some data \<and> EvalRunSchema_parse L data = Inr r
      \<longrightarrow> load L i files = Inr (Some r)) \<and>
   (files (filePath i) = Some data \<and> EvalRunSchema_parse L data = Inl e
      \<longrightarrow> load L i files = Inl (Malformed e))"
  by (auto simp: load_def existsSync_def readFile_def split: sum.splits option.splits)

theorem load_absent_or_parsed_witness:
  "\<not> existsSync (filePath ''r1'') Map.empty \<and>
   load plain_layer ''r1'' Map.empty = Inr None \<and>
   store1 (filePath ''r1'') = Some (plain_stringify_run run1) \<and>
   EvalRunSchema_parse plain_layer (plain_stringify_run run1) = Inr run1 \<and>
   load plain_layer ''r1'' store1 = Inr (Some run1) \<and>
   [filePath ''r1'' \<mapsto> ''oops''] (filePath ''r1'') = Some ''oops'' \<and>
   EvalRunSchema_parse plain_layer ''oops'' = Inl SyntaxError \<and>
   load plain_layer ''r1'' [filePath ''r1'' \<mapsto> ''oops''] = Inl (Malformed SyntaxError)"
proof -
  have a: "\<not> existsSync (filePath ''r1'') Map.empty"
    by (simp add: existsSync_def)
  have b: "store1 (filePath ''r1'') = Some (plain_stringify_run run1)"
    using indexFile_neq_record [of "''r1''"] by (simp add: store1_files)
  have b': "EvalRunSchema_parse plain_layer (plain_stringify_run run1) = Inr run1"
    by (simp add: plain_layer_simps plain_roundtrip_run1)
  have c: "[filePath ''r1'' \<mapsto> ''oops''] (filePath ''r1'') = Some ''oops''"
    by simp
  have c': "EvalRunSchema_parse plain_layer ''oops'' = Inl SyntaxError"
    by (simp add: plain_layer_simps plain_parse_run_def)
  from load_absent_or_parsed [where L = plain_layer and i = "''r1''" and files = Map.empty] a
  have 1: "load plain_layer ''r1'' Map.empty = Inr None"
    by blast
  from load_absent_or_parsed [where L = plain_layer and i = "''r1''" and files = store1
      and data = "plain_stringify_run run1" and r = run1] b b'
  have 2: "load plain_layer ''r1'' store1 = Inr (Some run1)"
    by blast
  from load_absent_or_parsed [where L = plain_layer and i = "''r1''"
      and files = "[filePath ''r1'' \<mapsto> ''oops'']" and data = "''oops''" and e = SyntaxError] c c'
  have 3: "load plain_layer ''r1'' [filePath ''r1'' \<mapsto> ''oops''] = Inl (Malformed SyntaxError)"
    by blast
  from a b b' c c' 1 2 3 show ?thesis by blast
qed

text \<open>
  Claim C8. On a new store in an empty directory (the constructor has just created
  the index, empty, and no run was saved), \<^verbatim>\<open>list\<close> returns the response with no
  key, whatever the query, and \<^verbatim>\<open>load\<close> returns \<^verbatim>\<open>undefined\<close> for every id.
\<close>

theorem fresh_store_is_empty:
  "list L query (constructor Map.empty) = Inr \<lparr>evalRunKeys = []\<rparr> \<and>
   load L i (constructor Map.empty) = Inr None"
  using indexFile_neq_record [of i]
  by (simp add: list_def load_def constructor_def existsSync_def writeFile_def readFile_def)

subsection \<open>Deleting\<close>

text \<open>
  Claim C4. For an id whose record file does not exist, \<^verbatim>\<open>delete(id)\<close> fails with
  the error that the run cannot be found and leaves every file, the index among them,
  as it was. In particular \<^verbatim>\<open>delete\<close> is not idempotent: after a \<^verbatim>\<open>delete(id)\<close>
  that succeeded, a second \<^verbatim>\<open>delete(id)\<close> fails with that error.
\<close>

theorem delete_absent_fails:
  "(\<not> existsSync (filePath i) files \<longrightarrow> delete L i files = (Inl (CannotFind i), files)) \<and>
   (fst (delete L i files) = Inr () \<longrightarrow>
      delete L i (snd (delete L i files)) = (Inl (CannotFind i), snd (delete L i files)))"
proof -
  have absent: "\<And>fs. \<not> existsSync (filePath i) fs \<Longrightarrow> delete L i fs = (Inl (CannotFind i), fs)"
    by (simp add: delete_def)
  show ?thesis
    using absent delete_removes_record [of L i files] by (simp add: existsSync_def)
qed

theorem delete_absent_fails_witness:
  "\<not> existsSync (filePath ''r1'') (constructor Map.empty) \<and>
   delete plain_layer ''r1'' (constructor Map.empty)
     = (Inl (CannotFind ''r1''), constructor Map.empty) \<and>
   fst (delete plain_layer ''r1'' store1) = Inr () \<and>
   delete plain_layer ''r1'' (snd (delete plain_layer ''r1'' store1))
     = (Inl (CannotFind ''r1''), snd (delete plain_layer ''r1'' store1))"
proof -
  have a: "\<not> existsSync (filePath ''r1'') (constructor Map.empty)"
    using indexFile_neq_record [of "''r1''"]
    by (simp add: constructor_def existsSync_def writeFile_def)
  have b: "fst (delete plain_layer ''r1'' store1) = Inr ()"
    by (simp add: delete_store1)
  from delete_absent_fails [of "''r1''" "constructor Map.empty" plain_layer] a
  have 1: "delete plain_layer ''r1'' (constructor Map.empty)
             = (Inl (CannotFind ''r1''), constructor Map.empty)"
    by blast
  from delete_absent_fails [of "''r1''" store1 plain_layer] b
  have 2: "delete plain_layer ''r1'' (snd (delete plain_layer ''r1'' store1))
             = (Inl (CannotFind ''r1''), snd (delete plain_layer ''r1'' store1))"
    by blast
  from a b 1 2 show ?thesis by blast
qed

text \<open>
  Claim C2, at the input where the code breaks it. One run is saved in a new store
  and deleted again. The \<^verbatim>\<open>delete\<close> succeeds, and since no line is kept it writes
  the index as the join of no lines followed by the delimiter: one line feed. The
  \<^verbatim>\<open>list\<close> that follows finds an index that is not empty, strips the line feed,
  splits the empty string into one empty line and fails to parse that line.
\<close>

theorem delete_only_run_then_list_fails:
  "fst (delete plain_layer ''r1'' store1) = Inr () \<and>
   snd (delete plain_layer ''r1'' store1) indexFile = Some [INDEX_DELIMITER] \<and>
   list plain_layer None (snd (delete plain_layer ''r1'' store1)) = Inl (Malformed SyntaxError)"
  by (simp add: delete_store1 list_def readFile_def slice_0_m1_def parseLineToKey_def
      plain_layer_simps plain_parse_key_empty)

text \<open>
  Claim C9. Let the record file of the id exist and let some line of the index fail
  to parse as a key, the lines being those that \<^verbatim>\<open>readline\<close> yields to the rebuild
  (ended by a line feed, a carriage return, or both). Then \<^verbatim>\<open>delete(id)\<close> fails
  with that kind of error during the rebuild, after it has removed the record file
  and before it writes the index: afterwards the record file is gone, and the index
  and every other file are as they were, the lines of the id among them.
\<close>

theorem delete_fails_on_bad_index:
  assumes "existsSync (filePath i) files" and "files indexFile = Some data"
      and "line \<in> set (readline data)" and "EvalRunKeySchema_parse L line = Inl e"
  shows "\<exists>e'. fst (delete L i files) = Inl (Malformed e') \<and>
              snd (delete L i files) = files(filePath i := None) \<and>
              \<not> existsSync (filePath i) (snd (delete L i files)) \<and>
              snd (delete L i files) indexFile = Some data"
proof -
  from retain_lines_bad [where L = L and i = i and acc = "[]", OF assms(3,4)] obtain e' where
    "retain_lines L i (readline data) [] = Inl (Malformed e')"
    by blast
  with assms(1,2) indexFile_neq_record [of i]
  have "delete L i files = (Inl (Malformed e'), files(filePath i := None))"
    by (auto simp: delete_def deleteEvalRunFromIndex_def existsSync_def unlink_def readFile_def)
  with assms(2) indexFile_neq_record [of i] show ?thesis
    by (auto simp: existsSync_def)
qed

theorem delete_fails_on_bad_index_witness:
  "existsSync (filePath ''r1'') store_bad \<and> store_bad indexFile = Some index_bad \<and>
   ''oops'' \<in> set (readline index_bad) \<and>
   EvalRunKeySchema_parse plain_layer ''oops'' = Inl SyntaxError \<and>
   (\<exists>e'. fst (delete plain_layer ''r1'' store_bad) = Inl (Malformed e') \<and>
      snd (delete plain_layer ''r1'' store_bad) = store_bad(filePath ''r1'' := None) \<and>
      \<not> existsSync (filePath ''r1'') (snd (delete plain_layer ''r1'' store_bad)) \<and>
      snd (delete plain_layer ''r1'' store_bad) indexFile = Some index_bad)"
proof -
  have a: "existsSync (filePath ''r1'') store_bad"
    using indexFile_neq_record [of "''r1''"] by (simp add: store_bad_def existsSync_def)
  have b: "store_bad indexFile = Some index_bad" by (simp add: store_bad_def)
  have c: "''oops'' \<in> set (readline index_bad)"
    by (simp add: readline_index_bad)
  have d: "EvalRunKeySchema_parse plain_layer ''oops'' = Inl SyntaxError"
    by (simp add: plain_layer_simps plain_parse_key_oops)
  from delete_fails_on_bad_index [where files = store_bad and L = plain_layer, OF a b c d] a b c d
  show ?thesis by blast
qed

text \<open>
  Claim C7. After every \<^verbatim>\<open>save\<close> (which always succeeds) the index is its former
  text followed by the serialised key and the delimiter. After every \<^verbatim>\<open>delete\<close>
  that succeeds the index is the join of the retained lines followed by the
  delimiter, which is each retained line followed by the delimiter when a line is
  retained (and the delimiter alone when none is). In both cases the index ends with
  the delimiter.
\<close>

theorem index_ends_with_delimiter:
  "(\<exists>data. snd (save L r files) indexFile = Some data \<and> ends_with_delimiter data \<and>
       data = index_text files @ JSON_stringify_key L (key r) @ [INDEX_DELIMITER]) \<and>
   (fst (delete L i files) = Inr () \<longrightarrow>
      (\<exists>data entries. snd (delete L i files) indexFile = Some data \<and> ends_with_delimiter data \<and>
         retain_lines L i (readline (index_text files)) [] = Inr entries \<and>
         data = join INDEX_DELIMITER entries @ [INDEX_DELIMITER] \<and>
         (entries \<noteq> [] \<longrightarrow> data = concat (map (\<lambda>l. l @ [INDEX_DELIMITER]) entries))))"
proof (intro conjI impI)
  show "\<exists>data. snd (save L r files) indexFile = Some data \<and> ends_with_delimiter data \<and>
       data = index_text files @ JSON_stringify_key L (key r) @ [INDEX_DELIMITER]"
    using indexFile_neq_record [of "evalRunId (key r)"]
    by (simp add: save_def Let_def writeFile_def appendFile_def index_text_def
        ends_with_delimiter_def split: option.splits)
next
  assume ok: "fst (delete L i files) = Inr ()"
  from delete_Inr_D [OF ok] obtain x data entries where
    f: "files (filePath i) = Some x" "files indexFile = Some data"
       "retain_lines L i (readline data) [] = Inr entries"
    by blast
  from delete_Inr [where files = files and L = L, OF f]
  have "snd (delete L i files) indexFile = Some (join INDEX_DELIMITER entries @ [INDEX_DELIMITER])"
    by simp
  with f(2,3) show "\<exists>data entries. snd (delete L i files) indexFile = Some data \<and>
         ends_with_delimiter data \<and>
         retain_lines L i (readline (index_text files)) [] = Inr entries \<and>
         data = join INDEX_DELIMITER entries @ [INDEX_DELIMITER] \<and>
         (entries \<noteq> [] \<longrightarrow> data = concat (map (\<lambda>l. l @ [INDEX_DELIMITER]) entries))"
    by (simp add: index_text_def ends_with_delimiter_def join_delimiter_concat)
qed

theorem index_ends_with_delimiter_witness:
  "snd (save plain_layer run1 (constructor Map.empty)) indexFile = Some (line1 @ [INDEX_DELIMITER]) \<and>
   ends_with_delimiter (line1 @ [INDEX_DELIMITER]) \<and>
   fst (delete plain_layer ''r2'' store3) = Inr () \<and>
   snd (delete plain_layer ''r2'' store3) indexFile
     = Some (concat (map (\<lambda>l. l @ [INDEX_DELIMITER]) [line1, line3])) \<and>
   ends_with_delimiter (concat (map (\<lambda>l. l @ [INDEX_DELIMITER]) [line1, line3]))"
proof -
  note inst = index_ends_with_delimiter [where L = plain_layer and r = run1 and files = "constructor Map.empty"]
  have t: "index_text (constructor Map.empty) = []"
    by (simp add: index_text_def constructor_def existsSync_def writeFile_def)
  from inst [THEN conjunct1] t
  have 1: "snd (save plain_layer run1 (constructor Map.empty)) indexFile
             = Some (line1 @ [INDEX_DELIMITER]) \<and> ends_with_delimiter (line1 @ [INDEX_DELIMITER])"
    by (auto simp: plain_layer_simps plain_stringify_key_run1)
  have ok: "fst (delete plain_layer ''r2'' store3) = Inr ()"
    by (simp add: delete_store3)
  have kept: "retain_lines plain_layer ''r2'' (readline (index_text store3)) [] = Inr [line1, line3]"
    by (simp add: index_text_def store3_def readline_index3 plain_layer_simps
        plain_parse_key_line1 plain_parse_key_line2 plain_parse_key_line3 run1_fields
        key2_def key3_def)
  from index_ends_with_delimiter [where L = plain_layer and i = "''r2''" and files = store3, THEN conjunct2] ok kept
  have 2: "snd (delete plain_layer ''r2'' store3) indexFile
             = Some (concat (map (\<lambda>l. l @ [INDEX_DELIMITER]) [line1, line3])) \<and>
           ends_with_delimiter (concat (map (\<lambda>l. l @ [INDEX_DELIMITER]) [line1, line3]))"
    by auto
  from 1 ok 2 show ?thesis by blast
qed

subsection \<open>Listing\<close>

lemma map_throwing_append:
  "map_throwing f xs = Inr ys \<Longrightarrow> map_throwing f zs = Inr ws \<Longrightarrow>
   map_throwing f (xs @ zs) = Inr (ys @ ws)"
  by (simp add: map_throwing_Inr)

text \<open>
  Saving adds the run's key at the end of what \<^verbatim>\<open>list\<close> returns, when the index
  was empty or ended with the delimiter, and the key's serialisation is one line that
  parses back to the key.
\<close>

lemma list_after_save:
  assumes pre: "list L None files = Inr \<lparr>evalRunKeys = keys\<rparr>"
      and inv: "index_text files = [] \<or> ends_with_delimiter (index_text files)"
      and parses: "EvalRunKeySchema_parse L (JSON_stringify_key L (key r)) = Inr (key r)"
      and one_line: "INDEX_DELIMITER \<notin> set (JSON_stringify_key L (key r))"
  shows "list L None (snd (save L r files)) = Inr \<lparr>evalRunKeys = keys @ [key r]\<rparr>"
proof -
  let ?line = "JSON_stringify_key L (key r)"
  from pre obtain data where data: "files indexFile = Some data"
    by (auto simp: list_def readFile_def split: option.splits)
  then have idx: "index_text files = data"
    by (simp add: index_text_def)
  have post: "snd (save L r files) indexFile = Some (data @ ?line @ [INDEX_DELIMITER])"
    using data indexFile_neq_record [of "evalRunId (key r)"]
    by (simp add: save_def Let_def writeFile_def appendFile_def)
  have line: "map_throwing (parseLineToKey L) [?line] = Inr [key r]"
    using parses by (simp add: parseLineToKey_def)
  have "map_throwing (parseLineToKey L)
          (split INDEX_DELIMITER (slice_0_m1 (data @ ?line @ [INDEX_DELIMITER])))
        = Inr (keys @ [key r])"
  proof (cases "data = []")
    case True
    with pre data have "keys = []"
      by (simp add: list_def readFile_def query_filter_actionRef_def)
    with True line one_line show ?thesis
      by (simp add: slice_0_m1_def split_without_delimiter)
  next
    case False
    with inv idx have "data = butlast data @ [INDEX_DELIMITER]"
      by (metis append_butlast_last_id ends_with_delimiter_def)
    then have "slice_0_m1 (data @ ?line @ [INDEX_DELIMITER])
                 = butlast data @ INDEX_DELIMITER # ?line"
      by (metis append.assoc append_Cons append_Nil butlast_snoc slice_0_m1_def)
    then have lines: "split INDEX_DELIMITER (slice_0_m1 (data @ ?line @ [INDEX_DELIMITER]))
                 = split INDEX_DELIMITER (butlast data) @ [?line]"
      using one_line by (simp add: split_append_delimiter split_without_delimiter)
    from pre data False
    have "map_throwing (parseLineToKey L) (split INDEX_DELIMITER (slice_0_m1 data)) = Inr keys"
      by (simp add: list_def readFile_def query_filter_actionRef_def split: sum.splits)
    then have "map_throwing (parseLineToKey L) (split INDEX_DELIMITER (butlast data)) = Inr keys"
      by (simp add: slice_0_m1_def)
    from map_throwing_append [OF this line] lines show ?thesis
      by simp
  qed
  with post show ?thesis
    by (simp add: list_def readFile_def query_filter_actionRef_def)
qed

text \<open>
  Claim C10. A query whose \<^verbatim>\<open>actionRef\<close> filter is the empty string filters
  nothing. For every state of the files, \<^verbatim>\<open>list\<close> with such a query returns what
  \<^verbatim>\<open>list\<close> with no query returns. And whenever the lines of the index all parse,
  it returns the keys of all the lines, whatever their \<^verbatim>\<open>actionRef\<close>: both for
  the lines as \<^verbatim>\<open>list\<close> reads them in any index, and for the lines in the spec's
  words in an index that is empty or ends with the delimiter.
\<close>

theorem list_empty_filter_is_no_filter:
  "list L (Some \<lparr>request_filter = Some \<lparr>filter_actionRef = Some []\<rparr>\<rparr>) files = list L None files \<and>
   (files indexFile = Some data \<and>
    map (EvalRunKeySchema_parse L)
      (if data = [] then [] else split INDEX_DELIMITER (slice_0_m1 data)) = map Inr keys
    \<longrightarrow> list L (Some \<lparr>request_filter = Some \<lparr>filter_actionRef = Some []\<rparr>\<rparr>) files
          = Inr \<lparr>evalRunKeys = keys\<rparr>) \<and>
   (files indexFile = Some data \<and> (data = [] \<or> ends_with_delimiter data) \<and>
    map (EvalRunKeySchema_parse L) (index_lines data) = map Inr keys
    \<longrightarrow> list L (Some \<lparr>request_filter = Some \<lparr>filter_actionRef = Some []\<rparr>\<rparr>) files
          = Inr \<lparr>evalRunKeys = keys\<rparr>)"
proof -
  let ?q = "Some \<lparr>request_filter = Some \<lparr>filter_actionRef = Some []\<rparr>\<rparr>"
  have same: "list L ?q files = list L None files"
    by (simp add: list_def query_filter_actionRef_def split: sum.splits)
  have all: "list L ?q files = Inr \<lparr>evalRunKeys = keys\<rparr>"
    if idx: "files indexFile = Some data"
      and parsed: "map (EvalRunKeySchema_parse L)
        (if data = [] then [] else split INDEX_DELIMITER (slice_0_m1 data)) = map Inr keys"
  proof (cases "data = []")
    case True
    with idx parsed show ?thesis
      by (simp add: list_def readFile_def query_filter_actionRef_def)
  next
    case False
    with parsed
    have "map_throwing (parseLineToKey L) (split INDEX_DELIMITER (slice_0_m1 data)) = Inr keys"
      by (simp add: map_throwing_Inr map_parseLineToKey)
    with False idx show ?thesis
      by (simp add: list_def readFile_def query_filter_actionRef_def)
  qed
  have "map (EvalRunKeySchema_parse L)
        (if data = [] then [] else split INDEX_DELIMITER (slice_0_m1 data)) = map Inr keys"
    if "data = [] \<or> ends_with_delimiter data"
      "map (EvalRunKeySchema_parse L) (index_lines data) = map Inr keys"
    using that by (simp add: index_lines_list_lines)
  with same all show ?thesis by blast
qed

theorem list_empty_filter_is_no_filter_witness:
  "[indexFile \<mapsto> index3] indexFile = Some index3 \<and>
   map (EvalRunKeySchema_parse plain_layer)
     (if index3 = [] then [] else split INDEX_DELIMITER (slice_0_m1 index3))
     = map Inr [key run1, key2, key3] \<and>
   (index3 = [] \<or> ends_with_delimiter index3) \<and>
   map (EvalRunKeySchema_parse plain_layer) (index_lines index3) = map Inr [key run1, key2, key3] \<and>
   list plain_layer (Some \<lparr>request_filter = Some \<lparr>filter_actionRef = Some []\<rparr>\<rparr>)
     [indexFile \<mapsto> index3] = Inr \<lparr>evalRunKeys = [key run1, key2, key3]\<rparr> \<and>
   actionRef (key run1) \<noteq> [] \<and> actionRef key2 \<noteq> [] \<and> actionRef key3 \<noteq> []"
proof -
  have a: "[indexFile \<mapsto> index3] indexFile = Some index3" by simp
  have b: "map (EvalRunKeySchema_parse plain_layer)
     (if index3 = [] then [] else split INDEX_DELIMITER (slice_0_m1 index3))
     = map Inr [key run1, key2, key3]"
    by (simp add: index3_ends split_index3 plain_layer_simps plain_parse_key_line1
        plain_parse_key_line2 plain_parse_key_line3)
  have c: "index3 = [] \<or> ends_with_delimiter index3"
    by (simp add: index3_ends)
  from b have d: "map (EvalRunKeySchema_parse plain_layer) (index_lines index3)
                    = map Inr [key run1, key2, key3]"
    by (simp add: index_lines_list_lines index3_ends)
  from list_empty_filter_is_no_filter [where files = "[indexFile \<mapsto> index3]" and L = plain_layer and data = index3
      and keys = "[key run1, key2, key3]"] a c d
  have 1: "list plain_layer (Some \<lparr>request_filter = Some \<lparr>filter_actionRef = Some []\<rparr>\<rparr>)
     [indexFile \<mapsto> index3] = Inr \<lparr>evalRunKeys = [key run1, key2, key3]\<rparr>"
    by blast
  have e: "actionRef (key run1) \<noteq> [] \<and> actionRef key2 \<noteq> [] \<and> actionRef key3 \<noteq> []"
    by (simp add: run1_fields key2_def key3_def)
  from a b c d 1 e show ?thesis by blast
qed

text \<open>
  Claim C6 fails as stated for an index that does not end with the delimiter. The
  index \<open>index_x\<close> is the line of a key followed by one more character. It has no
  trailing delimiter to strip, so its one line is the whole text, which is not JSON.
  \<^verbatim>\<open>list\<close> strips the last character whatever it is, parses the key's line that
  remains and returns the key.
\<close>

theorem list_skips_cut_line_counterexample:
  "index_lines index_x = [index_x] \<and>
   EvalRunKeySchema_parse plain_layer index_x = Inl SyntaxError \<and>
   list plain_layer None [indexFile \<mapsto> index_x] = Inr \<lparr>evalRunKeys = [key run1]\<rparr>"
proof -
  have "index_x \<noteq> []" "slice_0_m1 index_x = line1"
    by (simp_all add: index_x_def slice_0_m1_def)
  then have "list plain_layer None [indexFile \<mapsto> index_x] = Inr \<lparr>evalRunKeys = [key run1]\<rparr>"
    by (simp add: list_def readFile_def split_line1 parseLineToKey_def plain_layer_simps
        plain_parse_key_line1 query_filter_actionRef_def)
  then show ?thesis
    by (simp add: index_lines_x plain_layer_simps plain_parse_key_index_x)
qed

text \<open>
  Claim C6, amended. Let the index be not empty, and let some line of it, after the
  last character is stripped and the rest is split at the delimiter, fail to parse as
  a key. Then \<^verbatim>\<open>list\<close> fails with a parse error, whatever the query: it returns no
  partial result. In an index that ends with the delimiter the last character is the
  one trailing delimiter, and the claim holds there as it is stated, for the lines in
  the spec's words.
\<close>

theorem list_fails_on_bad_line:
  assumes "files indexFile = Some data" and "data \<noteq> []"
      and "EvalRunKeySchema_parse L line = Inl e"
  shows "(line \<in> set (split INDEX_DELIMITER (slice_0_m1 data))
            \<longrightarrow> (\<exists>e'. list L query files = Inl (Malformed e'))) \<and>
         (ends_with_delimiter data \<and> line \<in> set (index_lines data)
            \<longrightarrow> (\<exists>e'. list L query files = Inl (Malformed e')))"
proof -
  have bad: "\<exists>e'. list L query files = Inl (Malformed e')"
    if mem: "line \<in> set (split INDEX_DELIMITER (slice_0_m1 data))"
  proof -
    from assms(3) have "parseLineToKey L line = Inl (Malformed e)"
      by (simp add: parseLineToKey_def)
    from map_throwing_bad [where f = "parseLineToKey L", OF mem this] obtain err where
      err: "map_throwing (parseLineToKey L) (split INDEX_DELIMITER (slice_0_m1 data)) = Inl err"
      by blast
    from map_throwing_Inl [where f = "parseLineToKey L", OF err] parseLineToKey_Inl
    obtain pe where "err = Malformed pe"
      by blast
    with err assms(1,2) show ?thesis
      by (simp add: list_def readFile_def)
  qed
  moreover have "line \<in> set (split INDEX_DELIMITER (slice_0_m1 data))"
    if "ends_with_delimiter data" "line \<in> set (index_lines data)"
    using that assms(2) by (simp add: index_lines_list_lines)
  ultimately show ?thesis by blast
qed

theorem list_fails_on_bad_line_witness:
  "store_bad indexFile = Some index_bad \<and> index_bad \<noteq> [] \<and>
   EvalRunKeySchema_parse plain_layer ''oops'' = Inl SyntaxError \<and>
   ''oops'' \<in> set (split INDEX_DELIMITER (slice_0_m1 index_bad)) \<and>
   ends_with_delimiter index_bad \<and> ''oops'' \<in> set (index_lines index_bad) \<and>
   (\<exists>e'. list plain_layer None store_bad = Inl (Malformed e'))"
proof -
  have a: "store_bad indexFile = Some index_bad" by (simp add: store_bad_def)
  have b: "index_bad \<noteq> []" by (simp add: index_bad_def)
  have c: "''oops'' \<in> set (split INDEX_DELIMITER (slice_0_m1 index_bad))"
    by (simp add: list_lines_index_bad)
  have d: "EvalRunKeySchema_parse plain_layer ''oops'' = Inl SyntaxError"
    by (simp add: plain_layer_simps plain_parse_key_oops)
  have e: "ends_with_delimiter index_bad"
    by (simp add: ends_with_delimiter_def index_bad_def)
  with c have f: "''oops'' \<in> set (index_lines index_bad)"
    by (simp add: index_lines_list_lines b)
  from list_fails_on_bad_line [where files = store_bad and L = plain_layer and query = None, OF a b d] a b c d e f
  show ?thesis by blast
qed

text \<open>
  Claim C5 fails as stated, at two inputs. For the filter that is the empty string:
  the index of \<open>store1\<close> has one key, whose \<^verbatim>\<open>actionRef\<close> is \<^verbatim>\<open>a\<close>, and with the
  filter \<^verbatim>\<open>{actionRef: ''}\<close> \<^verbatim>\<open>list\<close> returns that key, while no key of the index
  has an \<^verbatim>\<open>actionRef\<close> equal to the filter. For an index that does not end with the
  delimiter: the one line of \<open>index_unterminated\<close> parses to a key whose
  \<^verbatim>\<open>actionRef\<close> is \<^verbatim>\<open>a\<close>, and with the filter \<^verbatim>\<open>{actionRef: 'a'}\<close> \<^verbatim>\<open>list\<close>
  fails, since it strips the last character of the line.
\<close>

theorem list_empty_filter_counterexample:
  "list plain_layer (Some \<lparr>request_filter = Some \<lparr>filter_actionRef = Some []\<rparr>\<rparr>) store1
     = Inr \<lparr>evalRunKeys = [key run1]\<rparr> \<and>
   filter (\<lambda>k. actionRef k = []) [key run1] = [] \<and>
   index_lines index_unterminated = [line1] \<and>
   EvalRunKeySchema_parse plain_layer line1 = Inr (key run1) \<and>
   actionRef (key run1) = ''a'' \<and>
   list plain_layer (Some \<lparr>request_filter = Some \<lparr>filter_actionRef = Some ''a''\<rparr>\<rparr>)
     [indexFile \<mapsto> index_unterminated] = Inl (Malformed SyntaxError)"
proof -
  have 1: "list plain_layer (Some \<lparr>request_filter = Some \<lparr>filter_actionRef = Some []\<rparr>\<rparr>) store1
     = Inr \<lparr>evalRunKeys = [key run1]\<rparr> \<and>
   filter (\<lambda>k. actionRef k = []) [key run1] = []"
    by (simp add: store1_files list_def readFile_def slice_0_m1_def split_line1 parseLineToKey_def
        plain_layer_simps plain_parse_key_line1 query_filter_actionRef_def run1_fields)
  have "index_unterminated \<noteq> []"
    by (simp add: index_unterminated_def line1_ends)
  then have 2: "list plain_layer (Some \<lparr>request_filter = Some \<lparr>filter_actionRef = Some ''a''\<rparr>\<rparr>)
     [indexFile \<mapsto> index_unterminated] = Inl (Malformed SyntaxError)"
    by (simp add: list_def readFile_def slice_0_m1_def index_unterminated_def split_cut_line1
        parseLineToKey_def plain_layer_simps plain_parse_key_cut)
  from 1 2 show ?thesis
    by (simp add: index_lines_unterminated plain_layer_simps plain_parse_key_line1 run1_fields)
qed

text \<open>
  Claim C5, amended. Let every line of the index parse, the lines giving \<open>keys\<close> in
  their order; the lines are those that \<^verbatim>\<open>list\<close> reads (the text without its last
  character, split at the delimiter), which in an index that is empty or ends with
  the delimiter are the lines in the spec's words. For a query whose \<^verbatim>\<open>actionRef\<close>
  filter is a string that is not empty, \<^verbatim>\<open>list\<close> returns exactly the keys whose
  \<^verbatim>\<open>actionRef\<close> is equal to that string, in the order of the lines and with every
  duplicate. For no query, no filter, no \<^verbatim>\<open>actionRef\<close> or the empty string, it
  returns all keys in that order.
\<close>

theorem list_filter_amended:
  assumes "files indexFile = Some data"
  shows "(map (EvalRunKeySchema_parse L)
            (if data = [] then [] else split INDEX_DELIMITER (slice_0_m1 data)) = map Inr keys
          \<longrightarrow> list L query files =
                Inr \<lparr>evalRunKeys =
                  (case query_filter_actionRef query of
                     None \<Rightarrow> keys
                   | Some a \<Rightarrow> if a = [] then keys else filter (\<lambda>k. actionRef k = a) keys)\<rparr>) \<and>
         ((data = [] \<or> ends_with_delimiter data) \<and>
          map (EvalRunKeySchema_parse L) (index_lines data) = map Inr keys
          \<longrightarrow> list L query files =
                Inr \<lparr>evalRunKeys =
                  (case query_filter_actionRef query of
                     None \<Rightarrow> keys
                   | Some a \<Rightarrow> if a = [] then keys else filter (\<lambda>k. actionRef k = a) keys)\<rparr>)"
proof -
  have read: "list L query files =
                Inr \<lparr>evalRunKeys =
                  (case query_filter_actionRef query of
                     None \<Rightarrow> keys
                   | Some a \<Rightarrow> if a = [] then keys else filter (\<lambda>k. actionRef k = a) keys)\<rparr>"
    if parsed: "map (EvalRunKeySchema_parse L)
            (if data = [] then [] else split INDEX_DELIMITER (slice_0_m1 data)) = map Inr keys"
  proof (cases "data = []")
    case True
    with assms parsed show ?thesis
      by (simp add: list_def readFile_def split: option.splits)
  next
    case False
    with parsed
    have "map_throwing (parseLineToKey L) (split INDEX_DELIMITER (slice_0_m1 data)) = Inr keys"
      by (simp add: map_throwing_Inr map_parseLineToKey)
    with False assms show ?thesis
      by (simp add: list_def readFile_def split: option.splits)
  qed
  moreover have "map (EvalRunKeySchema_parse L)
            (if data = [] then [] else split INDEX_DELIMITER (slice_0_m1 data)) = map Inr keys"
    if "data = [] \<or> ends_with_delimiter data"
      "map (EvalRunKeySchema_parse L) (index_lines data) = map Inr keys"
    using that by (simp add: index_lines_list_lines)
  ultimately show ?thesis by blast
qed

theorem list_filter_amended_witness:
  "[indexFile \<mapsto> index3] indexFile = Some index3 \<and>
   map (EvalRunKeySchema_parse plain_layer)
     (if index3 = [] then [] else split INDEX_DELIMITER (slice_0_m1 index3))
     = map Inr [key run1, key2, key3] \<and>
   (index3 = [] \<or> ends_with_delimiter index3) \<and>
   map (EvalRunKeySchema_parse plain_layer) (index_lines index3) = map Inr [key run1, key2, key3] \<and>
   list plain_layer (Some \<lparr>request_filter = Some \<lparr>filter_actionRef = Some ''a''\<rparr>\<rparr>)
     [indexFile \<mapsto> index3] = Inr \<lparr>evalRunKeys = [key run1, key3]\<rparr> \<and>
   list plain_layer None [indexFile \<mapsto> index3] = Inr \<lparr>evalRunKeys = [key run1, key2, key3]\<rparr>"
proof -
  have a: "[indexFile \<mapsto> index3] indexFile = Some index3" by simp
  have b: "map (EvalRunKeySchema_parse plain_layer)
     (if index3 = [] then [] else split INDEX_DELIMITER (slice_0_m1 index3))
     = map Inr [key run1, key2, key3]"
    by (simp add: index3_ends split_index3 plain_layer_simps plain_parse_key_line1
        plain_parse_key_line2 plain_parse_key_line3)
  have c: "index3 = [] \<or> ends_with_delimiter index3"
    by (simp add: index3_ends)
  from b have d: "map (EvalRunKeySchema_parse plain_layer) (index_lines index3)
                    = map Inr [key run1, key2, key3]"
    by (simp add: index_lines_list_lines index3_ends)
  from list_filter_amended [where files = "[indexFile \<mapsto> index3]" and L = plain_layer
      and query = "Some \<lparr>request_filter = Some \<lparr>filter_actionRef = Some ''a''\<rparr>\<rparr>"
      and keys = "[key run1, key2, key3]", OF a] c d
  have 1: "list plain_layer (Some \<lparr>request_filter = Some \<lparr>filter_actionRef = Some ''a''\<rparr>\<rparr>)
     [indexFile \<mapsto> index3] = Inr \<lparr>evalRunKeys = [key run1, key3]\<rparr>"
    by (simp add: query_filter_actionRef_def run1_fields key2_def key3_def)
  from list_filter_amended [where files = "[indexFile \<mapsto> index3]" and L = plain_layer and query = None
      and keys = "[key run1, key2, key3]", OF a] b
  have 2: "list plain_layer None [indexFile \<mapsto> index3]
             = Inr \<lparr>evalRunKeys = [key run1, key2, key3]\<rparr>"
    by (simp add: query_filter_actionRef_def)
  from a b c d 1 2 show ?thesis by blast
qed

end
